theory Spec2Isabelle
  imports Complex_Main "HOL-Library.AList" "HOL-Library.Char_ord" "HOL-Library.List_Lexorder"
begin

section \<open>Values, steps and the Mission Document\<close>

text \<open>
  The three stages of the pipeline (\<^verbatim>\<open>dsl_to_json.py\<close>, \<^verbatim>\<open>validate_mission.py\<close>,
  \<^verbatim>\<open>json_to_mavlink.py\<close>) exchange Python dictionaries. A parameter value is what the
  parser can store: an \<^verbatim>\<open>int\<close>, a \<^verbatim>\<open>float\<close> or a \<^verbatim>\<open>str\<close>. Python's integers are
  unbounded (\<open>int\<close>); a Python float is idealised as the exact real number it stands for
  (rounding, infinities and NaN are outside this development). Strings are lists of
  8-bit characters; the character classes below agree with Python's on ASCII text.
  A dictionary is an association list in insertion order, looked up with \<open>map_of\<close> and
  assigned with \<open>AList.update\<close> (an existing key keeps its place, a new key goes last).
\<close>

datatype pvalue = PInt int | PFloat real | PStr string

type_synonym pdict = "(string \<times> pvalue) list"

record control =
  after_state :: string
  after_drone :: "string option"
  until :: "string option"

record step =
  state_id :: string
  drone :: string
  action :: string
  params :: pdict
  control :: control
  nxt :: "string option"

record mission =
  mission_id :: string
  drones :: "string list"
  steps :: "step list"

text \<open>The exceptions the three stages can raise.\<close>

datatype error =
    IndexError          \<comment> \<open>\<^verbatim>\<open>tokens[idx + 1]\<close> past the end\<close>
  | UnpackError         \<comment> \<open>\<^verbatim>\<open>k, v = tok.split("=")\<close> with more than two parts (a ValueError)\<close>
  | FloatError string   \<comment> \<open>\<^verbatim>\<open>float(s)\<close> on a string that is no number (a ValueError)\<close>
  | IntError            \<comment> \<open>\<^verbatim>\<open>int(s)\<close> on more digits than the interpreter converts (a ValueError)\<close>
  | AttributeError      \<comment> \<open>a name that the MAVLink library does not define\<close>
  | TypeError           \<comment> \<open>a string multiplied by a float\<close>
  | RoutingError string \<comment> \<open>\<^verbatim>\<open>ValueError("Drone ... not found in drone_sys_map")\<close>\<close>

section \<open>String primitives of the parser\<close>

definition isspace :: "char \<Rightarrow> bool" where
  "isspace c \<longleftrightarrow> c \<in> set [CHR 0x09, CHR 0x0A, CHR 0x0B, CHR 0x0C, CHR 0x0D,
                             CHR 0x1C, CHR 0x1D, CHR 0x1E, CHR 0x1F, CHR 0x20]"

text \<open>\<^verbatim>\<open>re.sub(r"\s+", " ", s)\<close>: every maximal run of whitespace becomes one blank.\<close>

function sub_ws :: "string \<Rightarrow> string" where
  "sub_ws [] = []"
| "sub_ws (c # cs) =
     (if isspace c then CHR 0x20 # sub_ws (dropWhile isspace cs) else c # sub_ws cs)"
  by pat_completeness auto
termination
  by (relation "measure length") (auto simp: length_dropWhile_le less_Suc_eq_le)

text \<open>\<^verbatim>\<open>s.strip()\<close>\<close>

definition strip :: "string \<Rightarrow> string" where
  "strip s = rev (dropWhile isspace (rev (dropWhile isspace s)))"

text \<open>\<^verbatim>\<open>s.split(sep)\<close> for a one-character separator: never empty, \<^verbatim>\<open>"".split(";") == [""]\<close>.\<close>

fun split_on :: "char \<Rightarrow> string \<Rightarrow> string list" where
  "split_on sep [] = [[]]"
| "split_on sep (c # cs) =
     (if c = sep then [] # split_on sep cs
      else (case split_on sep cs of
              [] \<Rightarrow> [[c]]
            | w # ws \<Rightarrow> (c # w) # ws))"

text \<open>\<^verbatim>\<open>s.split()\<close>: the maximal runs of non-whitespace characters.\<close>

function split_ws :: "string \<Rightarrow> string list" where
  "split_ws s =
     (let t = dropWhile isspace s in
      if t = [] then []
      else takeWhile (\<lambda>c. \<not> isspace c) t # split_ws (dropWhile (\<lambda>c. \<not> isspace c) t))"
  by pat_completeness auto
termination
proof (relation "measure length", simp, goal_cases)
  case (1 s t)
  then obtain c cs where t: "t = c # cs" and c: "\<not> isspace c"
    by (metis dropWhile_eq_Nil_conv hd_dropWhile list.exhaust_sel)
  have "length (dropWhile (\<lambda>c. \<not> isspace c) t) \<le> length cs"
    using t c by (simp add: length_dropWhile_le)
  moreover have "length t \<le> length s"
    using 1 by (simp add: length_dropWhile_le)
  ultimately show ?case using t by simp
qed

declare sub_ws.simps [simp del] split_ws.simps [simp del]

text \<open>\<^verbatim>\<open>f"{n}"\<close> for a non-negative integer.\<close>

definition digit_char :: "nat \<Rightarrow> char" where
  "digit_char d = char_of (48 + d)"

function str_nat :: "nat \<Rightarrow> string" where
  "str_nat n = (if n < 10 then [digit_char n] else str_nat (n div 10) @ [digit_char (n mod 10)])"
  by pat_completeness auto
termination
  by (relation "measure id") auto

declare str_nat.simps [simp del]

definition startswith :: "string \<Rightarrow> string \<Rightarrow> bool" where
  "startswith s p \<longleftrightarrow> take (length p) s = p"

section \<open>The number pattern\<close>

text \<open>
  The parser decides with \<^verbatim>\<open>re.fullmatch(r"-?\d+(\.\d+)?", v)\<close> whether a value is a
  number. Regular expressions are embedded as a datatype and matched by taking the
  residual expression after each character.
\<close>

datatype rexp =
    Nothing
  | Empty
  | Chr char
  | Digit
  | Alt rexp rexp
  | Seq rexp rexp
  | Star rexp

definition isdigit :: "char \<Rightarrow> bool" where
  "isdigit c \<longleftrightarrow> CHR ''0'' \<le> c \<and> c \<le> CHR ''9''"

fun accepts_empty :: "rexp \<Rightarrow> bool" where
  "accepts_empty Nothing = False"
| "accepts_empty Empty = True"
| "accepts_empty (Chr a) = False"
| "accepts_empty Digit = False"
| "accepts_empty (Alt r s) = (accepts_empty r \<or> accepts_empty s)"
| "accepts_empty (Seq r s) = (accepts_empty r \<and> accepts_empty s)"
| "accepts_empty (Star r) = True"

fun residual :: "char \<Rightarrow> rexp \<Rightarrow> rexp" where
  "residual c Nothing = Nothing"
| "residual c Empty = Nothing"
| "residual c (Chr a) = (if c = a then Empty else Nothing)"
| "residual c Digit = (if isdigit c then Empty else Nothing)"
| "residual c (Alt r s) = Alt (residual c r) (residual c s)"
| "residual c (Seq r s) =
     (if accepts_empty r then Alt (Seq (residual c r) s) (residual c s)
      else Seq (residual c r) s)"
| "residual c (Star r) = Seq (residual c r) (Star r)"

fun fullmatch :: "rexp \<Rightarrow> string \<Rightarrow> bool" where
  "fullmatch r [] = accepts_empty r"
| "fullmatch r (c # cs) = fullmatch (residual c r) cs"

definition Opt :: "rexp \<Rightarrow> rexp" where
  "Opt r = Alt Empty r"

definition Plus :: "rexp \<Rightarrow> rexp" where
  "Plus r = Seq r (Star r)"

text \<open>\<^verbatim>\<open>-?\d+(\.\d+)?\<close>\<close>

definition number_re :: rexp where
  "number_re =
     Seq (Opt (Chr (CHR ''-''))) (Seq (Plus Digit) (Opt (Seq (Chr (CHR ''.'')) (Plus Digit))))"

text \<open>
  \<^verbatim>\<open>int(v)\<close> and \<^verbatim>\<open>float(v)\<close> on the strings the pattern lets through: an optional
  minus sign and decimal digits, for \<^verbatim>\<open>float\<close> with a decimal point among them.
  \<^verbatim>\<open>int\<close> converts at most 4300 digit characters, the interpreter's default limit
  (\<^verbatim>\<open>sys.get_int_max_str_digits()\<close>): leading zeros count, the sign does not, and a longer
  text raises ValueError.
\<close>

definition int_max_str_digits :: nat where
  "int_max_str_digits = 4300"

definition digit_val :: "char \<Rightarrow> nat" where
  "digit_val c = of_char c - 48"

definition digits_val :: "string \<Rightarrow> nat" where
  "digits_val ds = foldl (\<lambda>acc c. 10 * acc + digit_val c) 0 ds"

definition int_of_str :: "string \<Rightarrow> error + int" where
  "int_of_str v =
     (case v of
        [] \<Rightarrow> Inl IntError
      | c # cs \<Rightarrow>
          if c = CHR ''-''
          then (if length cs > int_max_str_digits then Inl IntError
                else Inr (- int (digits_val cs)))
          else (if length v > int_max_str_digits then Inl IntError
                else Inr (int (digits_val v))))"

definition unsigned_float :: "string \<Rightarrow> real" where
  "unsigned_float b =
     (let ip = takeWhile (\<lambda>c. c \<noteq> CHR ''.'') b;
          fp = drop 1 (dropWhile (\<lambda>c. c \<noteq> CHR ''.'') b)
      in real (digits_val ip) + real (digits_val fp) / 10 ^ length fp)"

definition float_of_str :: "string \<Rightarrow> real" where
  "float_of_str v =
     (case v of
        [] \<Rightarrow> 0
      | c # cs \<Rightarrow> if c = CHR ''-'' then - unsigned_float cs else unsigned_float v)"

text \<open>
  Lines 52 to 55 of \<^verbatim>\<open>dsl_to_json.py\<close>: the value stored for the text \<open>v\<close>, or the
  exception of \<^verbatim>\<open>int(v)\<close>.
\<close>

definition coerce :: "string \<Rightarrow> error + pvalue" where
  "coerce v =
     (if fullmatch number_re v
      then (if CHR ''.'' \<in> set v then Inr (PFloat (float_of_str v))
            else (case int_of_str v of Inl e \<Rightarrow> Inl e | Inr i \<Rightarrow> Inr (PInt i)))
      else Inr (PStr v))"

section \<open>The parser\<close>

definition ACTION_KEYWORDS :: "string list" where
  "ACTION_KEYWORDS =
     [''ARM'', ''DISARM'', ''TAKEOFF'', ''LAND'', ''GOTO'', ''HOLD'',
      ''CIRCLE'', ''RETURN'', ''SPEED'', ''YAW'', ''FOLLOW'', ''WAIT'', ''ROTATE'', ''MOVE'',
      ''ROI'', ''TRIGGER'', ''GIMBAL'', ''SERVO'']"

text \<open>
  \<^verbatim>\<open>parse_param_list(tokens, idx)\<close>: the loop is a recursion on \<open>idx\<close> with the dictionary
  built so far; the unpacking \<^verbatim>\<open>k, v = tok.split("=")\<close> raises unless the token has
  exactly one \<^verbatim>\<open>=\<close>, and \<^verbatim>\<open>int(v)\<close> raises on too many digits.
\<close>

function parse_param_loop :: "string list \<Rightarrow> nat \<Rightarrow> pdict \<Rightarrow> error + (pdict \<times> nat)" where
  "parse_param_loop tokens idx ps =
     (if idx < length tokens then
        (let tok = tokens ! idx in
         if tok = ''AFTER'' \<or> tok = ''UNTIL'' then Inr (ps, idx)
         else if CHR ''='' \<in> set tok then
           (case split_on (CHR ''='') tok of
              [k, v] \<Rightarrow>
                (case coerce v of
                   Inl e \<Rightarrow> Inl e
                 | Inr x \<Rightarrow> parse_param_loop tokens (idx + 1) (AList.update k x ps))
            | _ \<Rightarrow> Inl UnpackError)
         else parse_param_loop tokens (idx + 1) ps)
      else Inr (ps, idx))"
  by pat_completeness auto
termination
  by (relation "measure (\<lambda>(tokens, idx, ps). length tokens - idx)") auto

declare parse_param_loop.simps [simp del]

definition parse_param_list :: "string list \<Rightarrow> nat \<Rightarrow> error + (pdict \<times> nat)" where
  "parse_param_list tokens idx = parse_param_loop tokens idx []"

definition no_control :: control where
  "no_control = \<lparr>after_state = ''NONE'', after_drone = None, until = None\<rparr>"

text \<open>\<^verbatim>\<open>parse_control(tokens, idx)\<close>: \<^verbatim>\<open>tokens[idx + 1]\<close> raises past the end of the list.\<close>

definition parse_control :: "string list \<Rightarrow> nat \<Rightarrow> error + (control \<times> nat)" where
  "parse_control tokens idx =
     (if idx \<ge> length tokens then Inr (no_control, idx)
      else
        (let tok = tokens ! idx in
         if tok = ''AFTER'' then
           (if idx + 1 < length tokens then
              (let target = tokens ! (idx + 1) in
               if startswith target ''s''
               then Inr (\<lparr>after_state = target, after_drone = None, until = None\<rparr>, idx + 2)
               else Inr (\<lparr>after_state = ''NONE'', after_drone = Some target, until = None\<rparr>,
                         idx + 2))
            else Inl IndexError)
         else if tok = ''UNTIL'' then
           (if idx + 1 < length tokens then
              (let cond = tokens ! (idx + 1) in
               Inr (\<lparr>after_state = ''NONE'', after_drone = None, until = Some cond\<rparr>, idx + 2))
            else Inl IndexError)
         else Inr (no_control, idx)))"

text \<open>The diagnostics printed to the error stream, one constructor per message.\<close>

datatype warning =
    ShortLine string
  | NotDrone string
  | MissingAction string
  | UnknownAction string string

text \<open>
  The local variables of \<^verbatim>\<open>dsl_to_json\<close> that the loop over \<^verbatim>\<open>raw_cmds\<close> updates.
  The set \<^verbatim>\<open>used_drones\<close> is a list without repetitions.
\<close>

record pstate =
  st_steps :: "step list"
  used_drones :: "string list"
  state_counter :: nat
  warnings :: "warning list"

definition warn :: "warning \<Rightarrow> pstate \<Rightarrow> pstate" where
  "warn w st = st\<lparr>warnings := warnings st @ [w]\<rparr>"

text \<open>One pass of the loop body, for the instruction \<open>cmd\<close>; \<open>n\<close> is \<^verbatim>\<open>len(raw_cmds)\<close>.\<close>

definition parse_cmd :: "nat \<Rightarrow> string \<Rightarrow> pstate \<Rightarrow> error + pstate" where
  "parse_cmd n cmd st =
     (let tokens = split_ws cmd in
      if length tokens < 2 then
        (if length tokens = 0 then Inr st else Inr (warn (ShortLine cmd) st))
      else if tokens ! 0 \<noteq> ''DRONE'' then Inr (warn (NotDrone cmd) st)
      else
        (let drone_id = tokens ! 1;
             st1 = st\<lparr>used_drones := List.insert drone_id (used_drones st)\<rparr>;
             idx = 2
         in
         if idx \<ge> length tokens then Inr (warn (MissingAction cmd) st1)
         else
           (let act = tokens ! idx;
                fixed = (if act \<in> set ACTION_KEYWORDS then Some act
                         else if act = ''STOP'' then Some ''HOLD''
                         else None)
            in
            case fixed of
              None \<Rightarrow> Inr (warn (UnknownAction act cmd) st1)
            | Some act' \<Rightarrow>
                (case parse_param_list tokens (idx + 1) of
                   Inl e \<Rightarrow> Inl e
                 | Inr (ps, idx1) \<Rightarrow>
                     (case parse_control tokens idx1 of
                        Inl e \<Rightarrow> Inl e
                      | Inr (ctl, idx2) \<Rightarrow>
                          Inr (st1\<lparr>st_steps := st_steps st1 @
                                   [\<lparr>state_id = ''s'' @ str_nat (state_counter st1),
                                     drone = drone_id,
                                     action = act',
                                     params = ps,
                                     control = ctl,
                                     nxt = (if state_counter st1 < n
                                            then Some (''s'' @ str_nat (state_counter st1 + 1))
                                            else None)\<rparr>],
                                 state_counter := state_counter st1 + 1\<rparr>))))))"

fun parse_cmds :: "nat \<Rightarrow> string list \<Rightarrow> pstate \<Rightarrow> error + pstate" where
  "parse_cmds n [] st = Inr st"
| "parse_cmds n (cmd # cmds) st =
     (case parse_cmd n cmd st of
        Inl e \<Rightarrow> Inl e
      | Inr st' \<Rightarrow> parse_cmds n cmds st')"

text \<open>\<^verbatim>\<open>[c.strip() for c in cleaned.split(";") if c.strip()]\<close>\<close>

definition raw_cmds :: "string \<Rightarrow> string list" where
  "raw_cmds dsl =
     (let cleaned = strip (sub_ws dsl) in
      map strip (filter (\<lambda>c. strip c \<noteq> []) (split_on (CHR '';'') cleaned)))"

definition init_pstate :: pstate where
  "init_pstate = \<lparr>st_steps = [], used_drones = [], state_counter = 1, warnings = []\<rparr>"

text \<open>
  \<^verbatim>\<open>dsl_to_json(dsl)\<close>: the Mission Document and the diagnostics printed on the way, or
  the exception that ended the call.
\<close>

definition dsl_to_json :: "string \<Rightarrow> error + (mission \<times> warning list)" where
  "dsl_to_json dsl =
     (let cmds = raw_cmds dsl in
      case parse_cmds (length cmds) cmds init_pstate of
        Inl e \<Rightarrow> Inl e
      | Inr st \<Rightarrow>
          Inr (\<lparr>mission_id = ''mission_auto'',
                drones = sort (used_drones st),
                steps = st_steps st\<rparr>,
               warnings st))"

section \<open>Python conversions used by the validator and the composer\<close>

text \<open>
  \<^verbatim>\<open>float(s)\<close> on a string and \<^verbatim>\<open>str(x)\<close> on a float belong to the Python runtime; the
  model takes them as given. \<open>float_of_text s = None\<close> stands for the ValueError that
  \<^verbatim>\<open>float(s)\<close> raises on a string that is no number.
\<close>

record runtime =
  float_of_text :: "string \<Rightarrow> real option"
  text_of_float :: "real \<Rightarrow> string"

definition py_float :: "runtime \<Rightarrow> pvalue \<Rightarrow> error + real" where
  "py_float rt v =
     (case v of
        PInt i \<Rightarrow> Inr (real_of_int i)
      | PFloat r \<Rightarrow> Inr r
      | PStr s \<Rightarrow> (case float_of_text rt s of None \<Rightarrow> Inl (FloatError s) | Some r \<Rightarrow> Inr r))"

definition str_int :: "int \<Rightarrow> string" where
  "str_int i = (if i < 0 then CHR ''-'' # str_nat (nat (- i)) else str_nat (nat i))"

definition py_str :: "runtime \<Rightarrow> pvalue \<Rightarrow> string" where
  "py_str rt v = (case v of PInt i \<Rightarrow> str_int i | PFloat r \<Rightarrow> text_of_float rt r | PStr s \<Rightarrow> s)"

text \<open>Truth value of a parameter: zero and the empty string are false.\<close>

definition truthy :: "pvalue \<Rightarrow> bool" where
  "truthy v = (case v of PInt i \<Rightarrow> i \<noteq> 0 | PFloat r \<Rightarrow> r \<noteq> 0 | PStr s \<Rightarrow> s \<noteq> [])"

text \<open>\<^verbatim>\<open>int(x)\<close> on a float rounds towards zero.\<close>

definition py_trunc :: "real \<Rightarrow> int" where
  "py_trunc r = (if r \<ge> 0 then \<lfloor>r\<rfloor> else \<lceil>r\<rceil>)"

definition upper_char :: "char \<Rightarrow> char" where
  "upper_char c =
     (if CHR ''a'' \<le> c \<and> c \<le> CHR ''z'' then char_of (of_char c - (32::nat)) else c)"

definition upper :: "string \<Rightarrow> string" where
  "upper s = map upper_char s"

text \<open>\<^verbatim>\<open>p in s\<close> for strings: \<open>p\<close> occurs in \<open>s\<close> as a contiguous piece.\<close>

fun contains :: "string \<Rightarrow> string \<Rightarrow> bool" where
  "contains p [] = (p = [])"
| "contains p (c # cs) = (startswith (c # cs) p \<or> contains p cs)"

text \<open>\<^verbatim>\<open>d.get(k, default)\<close>\<close>

definition dict_get :: "('k \<times> 'v) list \<Rightarrow> 'k \<Rightarrow> 'v \<Rightarrow> 'v" where
  "dict_get d k dflt = (case map_of d k of None \<Rightarrow> dflt | Some v \<Rightarrow> v)"

definition has_key :: "('k \<times> 'v) list \<Rightarrow> 'k \<Rightarrow> bool" where
  "has_key d k \<longleftrightarrow> map_of d k \<noteq> None"

section \<open>The safety validator\<close>

definition MAX_ALTITUDE :: real where "MAX_ALTITUDE = 120"
definition MIN_ALTITUDE :: real where "MIN_ALTITUDE = 0"
definition MAX_DISTANCE :: real where "MAX_DISTANCE = 500"

text \<open>
  An issue keeps the category of its message, the step index and the number written
  into the text; a line of the audit log keeps what the line reports.
\<close>

datatype issue =
    MissingAltitude nat
  | BelowGround nat real
  | AboveCeiling nat real
  | OutsideArea nat real

datatype log_line =
    LogRule
  | LogTitle string
  | LogMissionId string
  | LogDash
  | LogAction nat string pdict
  | LogSyntaxOk
  | LogSyntaxFail issue
  | LogState real real real
  | LogSafetyFail issue
  | LogMinOk real
  | LogWarning issue
  | LogMaxOk real
  | LogGeofenceFail issue
  | LogGeofenceOk real
  | LogFailed
  | LogTotalErrors nat
  | LogPassed
  | LogAllSatisfied

text \<open>
  The objects the validator can reach: the Mission Document it is given and the log
  buffer it appends to. Every function below takes this store and returns it, so that
  what is written, and what is not, is part of the model.
\<close>

record store =
  mission_json :: mission
  log_buffer :: "log_line list"

definition log_append :: "log_line \<Rightarrow> store \<Rightarrow> store" where
  "log_append l h = h\<lparr>log_buffer := log_buffer h @ [l]\<rparr>"

type_synonym pos = "real \<times> real \<times> real"

text \<open>
  Lines 35 to 54 of \<^verbatim>\<open>validate_mission.py\<close>: the predicted position, a copy of
  \<^verbatim>\<open>current_state\<close> with the action applied.
\<close>

definition predict :: "runtime \<Rightarrow> string \<Rightarrow> pdict \<Rightarrow> pos \<Rightarrow> error + pos" where
  "predict rt act ps current_state =
     (case current_state of (x, y, z) \<Rightarrow>
      if act = ''TAKEOFF'' then
        (case py_float rt (dict_get ps ''altitude'' (dict_get ps ''alt'' (PInt 10))) of
           Inl e \<Rightarrow> Inl e
         | Inr alt \<Rightarrow> Inr (x, y, alt))
      else if act = ''GOTO'' then
        (case (case map_of ps ''x'' of None \<Rightarrow> Inr x | Some v \<Rightarrow> py_float rt v) of
           Inl e \<Rightarrow> Inl e
         | Inr x1 \<Rightarrow>
             (case (case map_of ps ''y'' of None \<Rightarrow> Inr y | Some v \<Rightarrow> py_float rt v) of
                Inl e \<Rightarrow> Inl e
              | Inr y1 \<Rightarrow>
                  (case (case map_of ps ''z'' of None \<Rightarrow> Inr z | Some v \<Rightarrow> py_float rt v) of
                     Inl e \<Rightarrow> Inl e
                   | Inr z1 \<Rightarrow> Inr (x1, y1, z1))))
      else if act = ''MOVE'' then
        (case py_float rt (dict_get ps ''distance'' (PInt 0)) of
           Inl e \<Rightarrow> Inl e
         | Inr distance \<Rightarrow>
             (let direction = upper (py_str rt (dict_get ps ''direction'' (PStr []))) in
              if contains ''NORTH'' direction then Inr (x, y + distance, z)
              else if contains ''SOUTH'' direction then Inr (x, y - distance, z)
              else if contains ''EAST'' direction then Inr (x + distance, y, z)
              else if contains ''WEST'' direction then Inr (x - distance, y, z)
              else if contains ''UP'' direction then Inr (x, y, z + distance)
              else if contains ''DOWN'' direction then Inr (x, y, z - distance)
              else Inr (x, y, z)))
      else if act = ''LAND'' then Inr (x, y, 0)
      else Inr (x, y, z))"

text \<open>
  \<^verbatim>\<open>validate_step(step, index, current_state, log_buffer)\<close>: the issues of the step and
  the predicted position, or the exception of a failed conversion; in both cases the
  store as the call leaves it.
\<close>

definition validate_step ::
  "runtime \<Rightarrow> step \<Rightarrow> nat \<Rightarrow> pos \<Rightarrow> store \<Rightarrow> (error + (issue list \<times> pos)) \<times> store" where
  "validate_step rt stp index current_state h =
     (let act = action stp;
          ps = params stp;
          h1 = log_append (LogAction index act ps) h;
          (issues1, h2) =
            (if act = ''TAKEOFF'' then
               (if has_key ps ''altitude'' \<or> has_key ps ''alt''
                then ([], log_append LogSyntaxOk h1)
                else ([MissingAltitude index],
                      log_append (LogSyntaxFail (MissingAltitude index)) h1))
             else ([], h1))
      in
      case predict rt act ps current_state of
        Inl e \<Rightarrow> (Inl e, h2)
      | Inr (x, y, z) \<Rightarrow>
          (let h3 = log_append (LogState x y z) h2;
               (issues2, h4) =
                 (if z < MIN_ALTITUDE
                  then (issues1 @ [BelowGround index z],
                        log_append (LogSafetyFail (BelowGround index z)) h3)
                  else (issues1, log_append (LogMinOk z) h3));
               (issues3, h5) =
                 (if z > MAX_ALTITUDE
                  then (issues2 @ [AboveCeiling index z],
                        log_append (LogWarning (AboveCeiling index z)) h4)
                  else (issues2, log_append (LogMaxOk z) h4));
               dist_from_home = sqrt (x\<^sup>2 + y\<^sup>2);
               (issues4, h6) =
                 (if dist_from_home > MAX_DISTANCE
                  then (issues3 @ [OutsideArea index dist_from_home],
                        log_append (LogGeofenceFail (OutsideArea index dist_from_home)) h5)
                  else (issues3, log_append (LogGeofenceOk dist_from_home) h5))
           in (Inr (issues4, (x, y, z)), h6)))"

text \<open>
  The loop of \<^verbatim>\<open>run_validation\<close> over \<^verbatim>\<open>enumerate(mission_json["steps"])\<close>; \<open>i\<close> counts
  the steps already done.
\<close>

fun validate_steps ::
  "runtime \<Rightarrow> step list \<Rightarrow> nat \<Rightarrow> pos \<Rightarrow> issue list \<Rightarrow> store
     \<Rightarrow> (error + (issue list \<times> pos)) \<times> store" where
  "validate_steps rt [] i current_state all_issues h = (Inr (all_issues, current_state), h)"
| "validate_steps rt (stp # rest) i current_state all_issues h =
     (case validate_step rt stp (i + 1) current_state h of
        (Inl e, h') \<Rightarrow> (Inl e, h')
      | (Inr (step_issues, next_state), h') \<Rightarrow>
          validate_steps rt rest (i + 1) next_state (all_issues @ step_issues) h')"

text \<open>
  \<^verbatim>\<open>run_validation(mission_json)\<close>, with the time stamp read from the clock as the
  argument \<open>now\<close>. A Mission Document always has its steps, so the early return for a
  dictionary without the key \<^verbatim>\<open>steps\<close> has no counterpart here.
\<close>

definition run_validation ::
  "runtime \<Rightarrow> string \<Rightarrow> mission \<Rightarrow> (error + (issue list \<times> log_line list)) \<times> store" where
  "run_validation rt now m =
     (let h0 = \<lparr>mission_json = m, log_buffer = []\<rparr>;
          h1 = log_append LogDash
                 (log_append (LogMissionId (mission_id (mission_json h0)))
                    (log_append (LogTitle now) (log_append LogRule h0)))
      in
      case validate_steps rt (steps (mission_json h1)) 0 (0, 0, 0) [] h1 of
        (Inl e, h) \<Rightarrow> (Inl e, h)
      | (Inr (all_issues, final_state), h) \<Rightarrow>
          (let h2 = log_append LogDash h;
               h3 = (if all_issues \<noteq> []
                     then log_append (LogTotalErrors (length all_issues)) (log_append LogFailed h2)
                     else log_append LogAllSatisfied (log_append LogPassed h2));
               h4 = log_append LogRule h3
           in (Inr (all_issues, log_buffer h4), h4)))"

section \<open>The protocol composer\<close>

text \<open>
  The command codes and the frame code are names that the composer reads from the
  MAVLink library (\<^verbatim>\<open>mavutil.mavlink\<close>); the model keeps them by name. A descriptor is
  a Python dictionary: an association list from keys to the values the composer
  stores, among them the step's parameter dictionary and its control clause as they
  are.
\<close>

datatype mav_const =
    MAV_CMD_COMPONENT_ARM_DISARM
  | MAV_CMD_NAV_TAKEOFF
  | MAV_CMD_NAV_LAND
  | MAV_CMD_NAV_WAYPOINT
  | MAV_CMD_DO_CHANGE_SPEED
  | MAV_CMD_CONDITION_YAW
  | MAV_CMD_NAV_LOITER_UNTIL
  | MAV_CMD_NAV_RETURN_TO_LAUNCH
  | MAV_CMD_NAV_LOITER_TURNS
  | MAV_FRAME_GLOBAL_RELATIVE_ALT

datatype dval =
    VInt int
  | VFloat real
  | VStr string
  | VConst mav_const
  | VList "dval list"
  | VParams pdict
  | VControl control

type_synonym descriptor = "(string \<times> dval) list"

text \<open>
  Reading a name from the library. The library defines all the names above but one: its
  loiter commands are \<^verbatim>\<open>LOITER_UNLIM\<close>, \<^verbatim>\<open>LOITER_TURNS\<close>, \<^verbatim>\<open>LOITER_TIME\<close> and
  \<^verbatim>\<open>LOITER_TO_ALT\<close>, there is no \<^verbatim>\<open>MAV_CMD_NAV_LOITER_UNTIL\<close>, and reading that name
  raises AttributeError. Where the name exists the composer below writes the constant
  itself.
\<close>

definition sum_bind :: "'e + 'a \<Rightarrow> ('a \<Rightarrow> 'e + 'b) \<Rightarrow> 'e + 'b" where
  "sum_bind m f = (case m of Inl e \<Rightarrow> Inl e | Inr a \<Rightarrow> f a)"

definition mavlink_attr :: "mav_const \<Rightarrow> error + dval" where
  "mavlink_attr c = (if c = MAV_CMD_NAV_LOITER_UNTIL then Inl AttributeError else Inr (VConst c))"

definition dval_of :: "pvalue \<Rightarrow> dval" where
  "dval_of v = (case v of PInt i \<Rightarrow> VInt i | PFloat r \<Rightarrow> VFloat r | PStr s \<Rightarrow> VStr s)"

text \<open>\<^verbatim>\<open>d.update({...})\<close>: the pairs are assigned from left to right.\<close>

definition dict_update :: "('k \<times> 'v) list \<Rightarrow> ('k \<times> 'v) list \<Rightarrow> ('k \<times> 'v) list" where
  "dict_update d kvs = foldl (\<lambda>acc (k, v). AList.update k v acc) d kvs"

definition command_long_dict :: "int \<Rightarrow> int \<Rightarrow> dval \<Rightarrow> real list \<Rightarrow> descriptor" where
  "command_long_dict sysid compid command ps =
     (let p = take 7 (ps @ replicate 7 0) in
      [(''type'', VStr ''COMMAND_LONG''),
       (''sysid'', VInt sysid),
       (''compid'', VInt compid),
       (''command'', command),
       (''confirmation'', VInt 0),
       (''params'', VList (map VFloat p))])"

definition mission_item_int_dict ::
  "int \<Rightarrow> int \<Rightarrow> nat \<Rightarrow> dval \<Rightarrow> dval \<Rightarrow> dval \<Rightarrow> dval \<Rightarrow> dval \<Rightarrow> dval \<Rightarrow> dval \<Rightarrow> dval
     \<Rightarrow> dval \<Rightarrow> dval \<Rightarrow> dval \<Rightarrow> descriptor" where
  "mission_item_int_dict sysid compid seq command param1 param2 param3 param4 x y z
       frame current autocontinue =
     [(''type'', VStr ''MISSION_ITEM_INT''),
      (''sysid'', VInt sysid),
      (''compid'', VInt compid),
      (''seq'', VInt (int seq)),
      (''command'', command),
      (''params'', VList [param1, param2, param3, param4, x, y, z]),
      (''frame'', frame),
      (''current'', current),
      (''autocontinue'', autocontinue)]"

text \<open>
  What reaches a transport: the calls \<^verbatim>\<open>command_long_send\<close> and
  \<^verbatim>\<open>mission_item_int_send\<close> with their arguments, and the drone whose connection is
  used. A transport is assumed to accept every call. The progress messages printed when
  \<^verbatim>\<open>verbose\<close> is set are left out.
\<close>

datatype send_event =
    CommandLongSend string int int dval "real list"
  | MissionItemIntSend string int int nat dval dval "real list" int int real


definition num_float :: "dval \<Rightarrow> error + real" where
  "num_float v = (case v of VInt i \<Rightarrow> Inr (real_of_int i) | VFloat r \<Rightarrow> Inr r | _ \<Rightarrow> Inl TypeError)"

definition num_int :: "dval \<Rightarrow> error + int" where
  "num_int v = (case v of VInt i \<Rightarrow> Inr i | VFloat r \<Rightarrow> Inr (py_trunc r) | _ \<Rightarrow> Inl TypeError)"

definition send_command_long :: "string \<Rightarrow> int \<Rightarrow> int \<Rightarrow> dval \<Rightarrow> real list \<Rightarrow> send_event" where
  "send_command_long conn sysid compid cmd ps =
     CommandLongSend conn sysid compid cmd (take 7 (ps @ replicate 7 0))"

definition send_mission_item_int ::
  "string \<Rightarrow> int \<Rightarrow> int \<Rightarrow> nat \<Rightarrow> dval \<Rightarrow> dval list \<Rightarrow> dval \<Rightarrow> error + send_event" where
  "send_mission_item_int conn sysid compid seq command ps frame =
     (let p = ps @ replicate (7 - length ps) (VFloat 0) in
      sum_bind (num_float (p ! 0)) (\<lambda>p0.
      sum_bind (num_float (p ! 1)) (\<lambda>p1.
      sum_bind (num_float (p ! 2)) (\<lambda>p2.
      sum_bind (num_float (p ! 3)) (\<lambda>p3.
      sum_bind (num_int (p ! 4)) (\<lambda>p4.
      sum_bind (num_int (p ! 5)) (\<lambda>p5.
      sum_bind (num_float (p ! 6)) (\<lambda>p6.
        Inr (MissionItemIntSend conn sysid compid seq frame command
               [p0, p1, p2, p3] p4 p5 p6)))))))))"

text \<open>
  The local state of \<^verbatim>\<open>compose_and_send_mavlink\<close>: the list \<^verbatim>\<open>generated\<close>, the counters
  \<^verbatim>\<open>seq_counter_per_drone\<close> (looked up with \<open>map_of\<close>), and the calls made to the
  transports so far.
\<close>

record cstate =
  generated :: "descriptor list"
  seq_counter_per_drone :: "(string \<times> nat) list"
  sent :: "send_event list"

definition emit :: "descriptor \<Rightarrow> cstate \<Rightarrow> cstate" where
  "emit md st = st\<lparr>generated := generated st @ [md]\<rparr>"

definition set_seq :: "string \<Rightarrow> nat \<Rightarrow> cstate \<Rightarrow> cstate" where
  "set_seq d n st = st\<lparr>seq_counter_per_drone := AList.update d n (seq_counter_per_drone st)\<rparr>"

definition transmit :: "send_event \<Rightarrow> cstate \<Rightarrow> cstate" where
  "transmit ev st = st\<lparr>sent := sent st @ [ev]\<rparr>"

text \<open>\<^verbatim>\<open>send and connections and drone in connections\<close>\<close>

definition connected :: "bool \<Rightarrow> string list option \<Rightarrow> string \<Rightarrow> bool" where
  "connected send connections d \<longleftrightarrow>
     send \<and> (case connections of None \<Rightarrow> False | Some cs \<Rightarrow> cs \<noteq> [] \<and> d \<in> set cs)"

text \<open>\<^verbatim>\<open>int(params.get(k, 0) * 1e7) if params.get(k) else 0\<close>\<close>

definition scaled_e7 :: "pdict \<Rightarrow> string \<Rightarrow> error + int" where
  "scaled_e7 ps k =
     (case map_of ps k of
        None \<Rightarrow> Inr 0
      | Some v \<Rightarrow>
          if truthy v then
            (case v of
               PInt i \<Rightarrow> Inr (py_trunc (real_of_int i * 10000000))
             | PFloat r \<Rightarrow> Inr (py_trunc (r * 10000000))
             | PStr s \<Rightarrow> Inl TypeError)
          else Inr 0)"

text \<open>\<^verbatim>\<open>if generated: generated[-1]["control"] = control\<close>\<close>

definition set_control :: "control \<Rightarrow> cstate \<Rightarrow> cstate" where
  "set_control ctl st =
     (if generated st \<noteq> []
      then st\<lparr>generated :=
                (generated st)[length (generated st) - 1 :=
                   AList.update ''control'' (VControl ctl) (last (generated st))]\<rparr>
      else st)"

text \<open>A mission item is uploaded when the drone is connected.\<close>

definition upload ::
  "bool \<Rightarrow> string \<Rightarrow> int \<Rightarrow> int \<Rightarrow> nat \<Rightarrow> dval \<Rightarrow> dval list \<Rightarrow> dval \<Rightarrow> cstate \<Rightarrow> error + cstate" where
  "upload conn d sysid compid seq cmd p frame st =
     (if conn
      then sum_bind (send_mission_item_int d sysid compid seq cmd p frame)
             (\<lambda>ev. Inr (transmit ev st))
      else Inr st)"

definition command ::
  "bool \<Rightarrow> string \<Rightarrow> int \<Rightarrow> int \<Rightarrow> dval \<Rightarrow> real list \<Rightarrow> cstate \<Rightarrow> cstate" where
  "command conn d sysid compid cmd p st =
     (if conn then transmit (send_command_long d sysid compid cmd p) st else st)"

text \<open>
  One pass of the loop of \<^verbatim>\<open>compose_and_send_mavlink\<close> (lines 113 to 296), for the step
  \<open>stp\<close>. The routing check comes first. A pass that raises returns no state: it has
  made no call to a transport. The \<^verbatim>\<open>HOLD\<close> branch raises at its first line, where it
  reads the command name.
\<close>

definition compose_step ::
  "runtime \<Rightarrow> (string \<rightharpoonup> int \<times> int) \<Rightarrow> string list option \<Rightarrow> bool \<Rightarrow> step \<Rightarrow> cstate
     \<Rightarrow> error + cstate" where
  "compose_step rt drone_sys_map connections send stp st =
     (let d = drone stp in
      case drone_sys_map d of
        None \<Rightarrow> Inl (RoutingError d)
      | Some (sysid, compid) \<Rightarrow>
         (let act = action stp;
              ps = params stp;
              ctl = control stp;
              sid = state_id stp;
              seq = dict_get (seq_counter_per_drone st) d 0;
              conn = connected send connections d;
              frame = VConst MAV_FRAME_GLOBAL_RELATIVE_ALT;
              tags = [(''drone'', VStr d), (''action'', VStr act), (''state_id'', VStr sid)];
              tagsp = tags @ [(''human_params'', VParams ps)]
          in
          sum_bind
           (if act = ''ARM'' then
              (let cmd = VConst MAV_CMD_COMPONENT_ARM_DISARM;
                   p = [1];
                   md = dict_update (command_long_dict sysid compid cmd p) tags
               in Inr (command conn d sysid compid cmd p (emit md st)))
            else if act = ''DISARM'' then
              (let cmd = VConst MAV_CMD_COMPONENT_ARM_DISARM;
                   p = [0];
                   md = dict_update (command_long_dict sysid compid cmd p) tags
               in Inr (command conn d sysid compid cmd p (emit md st)))
            else if act = ''TAKEOFF'' then
              (let cmd = VConst MAV_CMD_NAV_TAKEOFF in
               sum_bind (py_float rt (dict_get ps ''altitude''
                          (dict_get ps ''alt'' (dict_get ps ''z'' (PInt 10))))) (\<lambda>altitude.
               sum_bind (scaled_e7 ps ''lat'') (\<lambda>lat.
               sum_bind (scaled_e7 ps ''lon'') (\<lambda>lon.
                 (let p = [VInt 0, VInt 0, VInt 0, VInt 0, VInt lat, VInt lon, VFloat altitude];
                      md = dict_update
                             (mission_item_int_dict sysid compid seq cmd
                                (p ! 0) (p ! 1) (p ! 2) (p ! 3) (p ! 4) (p ! 5) (VFloat altitude)
                                frame (VInt 0) (VInt 1))
                             tagsp
                  in upload conn d sysid compid seq cmd p frame
                       (set_seq d (seq + 1) (emit md st)))))))
            else if act = ''LAND'' then
              (let cmd = VConst MAV_CMD_NAV_LAND in
               sum_bind (py_float rt (dict_get ps ''altitude'' (dict_get ps ''alt'' (PInt 0))))
                 (\<lambda>altitude.
               sum_bind (scaled_e7 ps ''lat'') (\<lambda>lat.
               sum_bind (scaled_e7 ps ''lon'') (\<lambda>lon.
                 (let p = [VInt 0, VInt 0, VInt 0, VInt 0, VInt lat, VInt lon, VFloat altitude];
                      md = dict_update
                             (mission_item_int_dict sysid compid seq cmd
                                (p ! 0) (p ! 1) (p ! 2) (p ! 3) (p ! 4) (p ! 5) (VFloat altitude)
                                frame (VInt 0) (VInt 1))
                             tagsp
                  in upload conn d sysid compid seq cmd p frame
                       (set_seq d (seq + 1) (emit md st)))))))
            else if act = ''GOTO'' then
              (let cmd = VConst MAV_CMD_NAV_WAYPOINT in
               if has_key ps ''lat'' \<and> has_key ps ''lon'' then
                 sum_bind (py_float rt (dict_get ps ''lat'' (PInt 0))) (\<lambda>latf.
                 sum_bind (py_float rt (dict_get ps ''lon'' (PInt 0))) (\<lambda>lonf.
                 sum_bind (py_float rt (dict_get ps ''altitude''
                            (dict_get ps ''alt'' (dict_get ps ''z'' (PInt 0))))) (\<lambda>alt.
                   (let lat = py_trunc (latf * 10000000);
                        lon = py_trunc (lonf * 10000000);
                        p = [VInt 0, VInt 0, VInt 0, VInt 0, VInt lat, VInt lon, VFloat alt];
                        md = dict_update
                               (mission_item_int_dict sysid compid seq cmd
                                  (p ! 0) (p ! 1) (p ! 2) (p ! 3) (p ! 4) (p ! 5) (p ! 6)
                                  frame (VInt 0) (VInt 1))
                               tagsp
                    in upload conn d sysid compid seq cmd p frame
                         (set_seq d (seq + 1) (emit md st))))))
               else
                 (let md = dict_update
                             [(''type'', VStr ''UNSUPPORTED''),
                              (''drone'', VStr d),
                              (''action'', VStr ''GOTO''),
                              (''reason'', VStr ''Missing lat/lon''),
                              (''params'', VParams ps)]
                             tagsp
                  in Inr (set_seq d (seq + 1) (emit md st))))
            else if act = ''SPEED'' then
              (let cmd = VConst MAV_CMD_DO_CHANGE_SPEED in
               sum_bind (py_float rt (dict_get ps ''type'' (PInt 1))) (\<lambda>speed_type.
               sum_bind (py_float rt (dict_get ps ''speed'' (dict_get ps ''v'' (PInt 0)))) (\<lambda>speed.
               sum_bind (py_float rt (dict_get ps ''throttle'' (PInt 0))) (\<lambda>throttle.
                 (let p = [speed_type, speed, throttle];
                      md = dict_update (command_long_dict sysid compid cmd p) tagsp
                  in Inr (command conn d sysid compid cmd p (emit md st)))))))
            else if act = ''YAW'' then
              (let cmd = VConst MAV_CMD_CONDITION_YAW in
               sum_bind (py_float rt (dict_get ps ''yaw'' (dict_get ps ''heading'' (PInt 0)))) (\<lambda>yaw.
               sum_bind (py_float rt (dict_get ps ''speed'' (PInt 0))) (\<lambda>speed.
               sum_bind (py_float rt (dict_get ps ''direction'' (PInt 0))) (\<lambda>direction.
                 (let relative = (if (case map_of ps ''relative'' of None \<Rightarrow> True | Some v \<Rightarrow> truthy v)
                                  then 1 else 0);
                      p = [yaw, speed, direction, relative];
                      md = dict_update (command_long_dict sysid compid cmd p) tagsp
                  in Inr (command conn d sysid compid cmd p (emit md st)))))))
            else if act \<in> set [''HOLD'', ''RETURN'', ''CIRCLE'', ''FOLLOW'', ''WAIT''] then
              (if act = ''HOLD'' then
                 sum_bind (mavlink_attr MAV_CMD_NAV_LOITER_UNTIL) (\<lambda>cmd.
                  sum_bind (py_float rt (dict_get ps ''time'' (PInt 0))) (\<lambda>timeout.
                    (let p = [VFloat timeout, VInt 0, VInt 0, VInt 0, VInt 0, VInt 0, VInt 0];
                         md = mission_item_int_dict sysid compid seq cmd
                                (p ! 0) (p ! 1) (p ! 2) (p ! 3) (VInt 0) (VInt 0) (VInt 0)
                                frame (VInt 0) (VInt 1)
                     in upload conn d sysid compid seq cmd p (VInt 0)
                          (set_seq d (seq + 1) (emit md st)))))
               else if act = ''RETURN'' then
                 (let cmd = VConst MAV_CMD_NAV_RETURN_TO_LAUNCH;
                      md = command_long_dict sysid compid cmd []
                  in Inr (command conn d sysid compid cmd [] (emit md st)))
               else if act = ''CIRCLE'' then
                 (let cmd = VConst MAV_CMD_NAV_LOITER_TURNS in
                  sum_bind (py_float rt (dict_get ps ''turns'' (PInt 1))) (\<lambda>turns.
                    (let p = [VFloat turns, VInt 0, VInt 0, VInt 0, VInt 0, VInt 0, VInt 0];
                         md = mission_item_int_dict sysid compid seq cmd
                                (p ! 0) (p ! 1) (p ! 2) (p ! 3) (VInt 0) (VInt 0)
                                (dval_of (dict_get ps ''alt'' (PInt 0)))
                                (VInt 0) (VInt 0) (VInt 1)
                     in upload conn d sysid compid seq cmd p (VInt 0)
                          (set_seq d (seq + 1) (emit md st)))))
               else if act = ''FOLLOW'' then
                 (let md = (if has_key ps ''target''
                            then [(''type'', VStr ''COMMAND_LONG''),
                                  (''sysid'', VInt sysid),
                                  (''compid'', VInt compid),
                                  (''command'', VStr ''MAV_CMD_DO_FOLLOW (non-standard)''),
                                  (''params'', VParams ps)]
                            else [(''type'', VStr ''UNSUPPORTED''),
                                  (''drone'', VStr d),
                                  (''action'', VStr ''FOLLOW''),
                                  (''reason'', VStr ''no target provided'')])
                  in Inr (emit md st))
               else if act = ''WAIT'' then
                 sum_bind (py_float rt (dict_get ps ''time'' (dict_get ps ''t'' (PInt 1))))
                   (\<lambda>wait_seconds.
                     (let md = [(''type'', VStr ''WAIT''),
                                (''drone'', VStr d),
                                (''action'', VStr ''WAIT''),
                                (''seconds'', VFloat wait_seconds),
                                (''state_id'', VStr sid)]
                      in Inr (emit md st)))
               else Inr st)
            else
              (let md = [(''type'', VStr ''UNSUPPORTED''),
                         (''drone'', VStr d),
                         (''action'', VStr act),
                         (''params'', VParams ps)]
               in Inr (emit md st)))
           (\<lambda>st'. Inr (set_control ctl st'))))"

text \<open>
  The loop over the steps. The descriptors are returned when the loop ends; an
  exception ends the call, and what the caller then has is the exception. The calls
  already made to the transports stay made in both cases.
\<close>

fun compose_steps ::
  "runtime \<Rightarrow> (string \<rightharpoonup> int \<times> int) \<Rightarrow> string list option \<Rightarrow> bool \<Rightarrow> step list \<Rightarrow> cstate
     \<Rightarrow> (error + descriptor list) \<times> send_event list" where
  "compose_steps rt drone_sys_map connections send [] st = (Inr (generated st), sent st)"
| "compose_steps rt drone_sys_map connections send (stp # rest) st =
     (case compose_step rt drone_sys_map connections send stp st of
        Inl e \<Rightarrow> (Inl e, sent st)
      | Inr st' \<Rightarrow> compose_steps rt drone_sys_map connections send rest st')"

definition compose_and_send_mavlink ::
  "runtime \<Rightarrow> mission \<Rightarrow> (string \<rightharpoonup> int \<times> int) \<Rightarrow> string list option \<Rightarrow> bool
     \<Rightarrow> (error + descriptor list) \<times> send_event list" where
  "compose_and_send_mavlink rt m drone_sys_map connections send =
     compose_steps rt drone_sys_map connections send (steps m)
       \<lparr>generated = [],
        seq_counter_per_drone = map (\<lambda>d. (d, 0)) (drones m),
        sent = []\<rparr>"

text \<open>
  The runtime of the worked examples: \<^verbatim>\<open>float\<close> reads the texts of the number pattern,
  the part of Python's float syntax that the examples need, and no example turns a
  float into text.
\<close>

definition example_runtime :: runtime where
  "example_runtime =
     \<lparr>float_of_text = (\<lambda>s. if fullmatch number_re s then Some (float_of_str s) else None),
      text_of_float = (\<lambda>r. [])\<rparr>"

text \<open>A mission whose second step names a drone that the routing map will not know.\<close>

definition arm_then_unknown_drone :: mission where
  "arm_then_unknown_drone =
     \<lparr>mission_id = ''m'', drones = [''d1'', ''d9''],
      steps = [\<lparr>state_id = ''s1'', drone = ''d1'', action = ''ARM'', params = [],
                control = no_control, nxt = Some ''s2''\<rparr>,
               \<lparr>state_id = ''s2'', drone = ''d9'', action = ''ARM'', params = [],
                control = no_control, nxt = None\<rparr>]\<rparr>"

text \<open>
  The words of the specification for a numeric value: decimal digits, at least one;
  a number text is an optional minus sign, digits, and optionally a point and digits.
\<close>

definition digits :: "string \<Rightarrow> bool" where
  "digits ds \<longleftrightarrow> ds \<noteq> [] \<and> list_all isdigit ds"

definition number_text :: "string \<Rightarrow> bool" where
  "number_text v \<longleftrightarrow>
     (\<exists>sg ip fr. v = sg @ ip @ fr \<and> (sg = [] \<or> sg = ''-'') \<and> digits ip \<and>
        (fr = [] \<or> (\<exists>fp. fr = CHR ''.'' # fp \<and> digits fp)))"

text \<open>
  The four checks in the words of the specification: each one looks at the step and
  the predicted position only, and the issues of a step are what the checks report,
  in their order. The issues of a mission are those of its steps, one after the other,
  along the predicted positions.
\<close>

definition step_issues :: "nat \<Rightarrow> step \<Rightarrow> pos \<Rightarrow> issue list" where
  "step_issues index stp p =
     (case p of (x, y, z) \<Rightarrow>
        (if action stp = ''TAKEOFF'' \<and> map_of (params stp) ''altitude'' = None
              \<and> map_of (params stp) ''alt'' = None
         then [MissingAltitude index] else [])
        @ (if z < 0 then [BelowGround index z] else [])
        @ (if z > 120 then [AboveCeiling index z] else [])
        @ (if sqrt (x\<^sup>2 + y\<^sup>2) > 500 then [OutsideArea index (sqrt (x\<^sup>2 + y\<^sup>2))] else []))"

fun mission_issues :: "runtime \<Rightarrow> step list \<Rightarrow> nat \<Rightarrow> pos \<Rightarrow> error + issue list" where
  "mission_issues rt [] i p = Inr []"
| "mission_issues rt (stp # rest) i p =
     (case predict rt (action stp) (params stp) p of
        Inl e \<Rightarrow> Inl e
      | Inr p' \<Rightarrow>
          (case mission_issues rt rest (i + 1) p' of
             Inl e \<Rightarrow> Inl e
           | Inr later \<Rightarrow> Inr (step_issues (i + 1) stp p' @ later)))"

text \<open>A store for the worked examples of single steps.\<close>

definition empty_store :: store where
  "empty_store = \<lparr>mission_json = \<lparr>mission_id = ''m'', drones = [], steps = []\<rparr>, log_buffer = []\<rparr>"

text \<open>
  The steps built so far form a chain for \<open>n\<close> raw instructions: the counter is one more
  than their number, step \<open>k + 1\<close> is called \<open>s(k+1)\<close>, and it has a \<^verbatim>\<open>next\<close>, namely
  \<open>s(k+2)\<close>, exactly when \<open>k + 1 < n\<close>.
\<close>

definition chained :: "nat \<Rightarrow> pstate \<Rightarrow> bool" where
  "chained n st \<longleftrightarrow>
     state_counter st = length (st_steps st) + 1 \<and>
     (\<forall>k < length (st_steps st).
        state_id (st_steps st ! k) = ''s'' @ str_nat (k + 1) \<and>
        nxt (st_steps st ! k) = (if k + 1 < n then Some (''s'' @ str_nat (k + 2)) else None))"

section \<open>The parser: exceptions, the chain of steps, the drones list\<close>

text \<open>
  C1. The claim: for every script the parser returns normally, and a malformed
  instruction (among them a token with a malformed \<^verbatim>\<open>key=value\<close> and a trailing
  \<^verbatim>\<open>AFTER\<close> or \<^verbatim>\<open>UNTIL\<close>) is dropped with a diagnostic while the rest is parsed.
  The code does not do that on three of the listed shapes: a trailing \<^verbatim>\<open>AFTER\<close> and a
  trailing \<^verbatim>\<open>UNTIL\<close> raise IndexError in \<^verbatim>\<open>parse_control\<close>, a token with two \<^verbatim>\<open>=\<close> raises
  ValueError in \<^verbatim>\<open>parse_param_list\<close>, and the well-formed instruction that follows is
  never parsed.
\<close>

theorem parser_raises_on_malformed_instruction:
  "dsl_to_json ''DRONE d1 TAKEOFF alt=10 AFTER; DRONE d1 LAND'' = Inl IndexError
   \<and> dsl_to_json ''DRONE d1 HOLD UNTIL; DRONE d1 LAND'' = Inl IndexError
   \<and> dsl_to_json ''DRONE d1 GOTO x=1=2; DRONE d1 LAND'' = Inl UnpackError"
  by code_simp

text \<open>
  C2. The claim: \<^verbatim>\<open>next\<close> is absent exactly on the last accepted step, also when raw
  instructions were dropped. The code compares the step counter with the number of raw
  instructions, not of accepted ones: after a dropped instruction the last step points
  to a state that does not exist. Here the only step \<open>s1\<close> has \<^verbatim>\<open>next\<close> \<open>s2\<close>.
\<close>

theorem next_dangles_after_dropped_instruction:
  "dsl_to_json ''DRONE d1 ARM; DRONE d1 FLY'' =
     Inr (\<lparr>mission_id = ''mission_auto'', drones = [''d1''],
           steps = [\<lparr>state_id = ''s1'', drone = ''d1'', action = ''ARM'', params = [],
                     control = \<lparr>after_state = ''NONE'', after_drone = None, until = None\<rparr>,
                     nxt = Some ''s2''\<rparr>]\<rparr>,
          [UnknownAction ''FLY'' ''DRONE d1 FLY''])"
  by code_simp

lemma parse_cmd_used_drones_mono:
  "parse_cmd n cmd st = Inr st' \<Longrightarrow> set (used_drones st) \<subseteq> set (used_drones st')"
  by (auto simp: parse_cmd_def Let_def warn_def
           split: if_splits option.splits sum.splits prod.splits)

lemma parse_cmd_adds_drone:
  "parse_cmd n cmd st = Inr st' \<Longrightarrow> split_ws cmd = ''DRONE'' # d # rest
   \<Longrightarrow> d \<in> set (used_drones st')"
  by (auto simp: parse_cmd_def Let_def warn_def
           split: if_splits option.splits sum.splits prod.splits)

text \<open>
  An instruction \<^verbatim>\<open>DRONE d\<close> with no action, or with an action that is neither a keyword
  nor \<^verbatim>\<open>STOP\<close>, is dropped: the pass adds a diagnostic and the drone id, and no step.
\<close>

lemma parse_cmd_dropped:
  assumes "split_ws cmd = ''DRONE'' # d # rest"
    and "rest = [] \<or> (hd rest \<notin> set ACTION_KEYWORDS \<and> hd rest \<noteq> ''STOP'')"
  shows "\<exists>w. parse_cmd n cmd st =
              Inr (warn w (st\<lparr>used_drones := List.insert d (used_drones st)\<rparr>))"
  using assms by (cases rest) (auto simp: parse_cmd_def Let_def)

lemma parse_cmds_used_drones_mono:
  "parse_cmds n cmds st = Inr st' \<Longrightarrow> set (used_drones st) \<subseteq> set (used_drones st')"
proof (induction cmds arbitrary: st)
  case Nil
  then show ?case by simp
next
  case (Cons c cs)
  then obtain st1 where 1: "parse_cmd n c st = Inr st1" and 2: "parse_cmds n cs st1 = Inr st'"
    by (auto split: sum.splits)
  from parse_cmd_used_drones_mono[OF 1] Cons.IH[OF 2] show ?case by blast
qed

lemma parse_cmds_adds_drone:
  "parse_cmds n cmds st = Inr st' \<Longrightarrow> cmd \<in> set cmds \<Longrightarrow> split_ws cmd = ''DRONE'' # d # rest
   \<Longrightarrow> d \<in> set (used_drones st')"
proof (induction cmds arbitrary: st)
  case Nil
  then show ?case by simp
next
  case (Cons c cs)
  then obtain st1 where 1: "parse_cmd n c st = Inr st1" and 2: "parse_cmds n cs st1 = Inr st'"
    by (auto split: sum.splits)
  show ?case
  proof (cases "cmd = c")
    case True
    with 1 Cons.prems(3) have "d \<in> set (used_drones st1)"
      by (auto dest: parse_cmd_adds_drone)
    with parse_cmds_used_drones_mono[OF 2] show ?thesis by blast
  next
    case False
    with Cons.prems(2) have "cmd \<in> set cs" by simp
    from Cons.IH[OF 2 this Cons.prems(3)] show ?thesis .
  qed
qed

lemma two_drones_one_step:
  "dsl_to_json ''DRONE d1 ARM; DRONE d2 FLY'' =
     Inr (\<lparr>mission_id = ''mission_auto'', drones = [''d1'', ''d2''],
           steps = [\<lparr>state_id = ''s1'', drone = ''d1'', action = ''ARM'', params = [],
                     control = \<lparr>after_state = ''NONE'', after_drone = None, until = None\<rparr>,
                     nxt = Some ''s2''\<rparr>]\<rparr>,
          [UnknownAction ''FLY'' ''DRONE d2 FLY''])"
  by code_simp

text \<open>
  C10. When the parser returns a document, the drone id of every instruction that
  begins \<^verbatim>\<open>DRONE id\<close> and is then dropped, for a missing action or for an action that is
  neither a keyword nor \<^verbatim>\<open>STOP\<close>, is in the drones list of the document; and there is a
  script whose document lists a drone that no step of the document names.
\<close>

theorem dropped_instruction_drone_listed:
  assumes "dsl_to_json dsl = Inr (doc, ws)"
    and "cmd \<in> set (raw_cmds dsl)"
    and "split_ws cmd = ''DRONE'' # d # rest"
    and "rest = [] \<or> (hd rest \<notin> set ACTION_KEYWORDS \<and> hd rest \<noteq> ''STOP'')"
  shows "d \<in> set (drones doc)
         \<and> (\<exists>dsl' doc' ws' d'. dsl_to_json dsl' = Inr (doc', ws') \<and> d' \<in> set (drones doc')
               \<and> d' \<notin> drone ` set (steps doc'))"
proof
  from assms(1) obtain st
    where st: "parse_cmds (length (raw_cmds dsl)) (raw_cmds dsl) init_pstate = Inr st"
      and doc: "doc = \<lparr>mission_id = ''mission_auto'', drones = sort (used_drones st),
                       steps = st_steps st\<rparr>"
    by (auto simp: dsl_to_json_def Let_def split: sum.splits)
  from parse_cmds_adds_drone[OF st assms(2,3)] doc show "d \<in> set (drones doc)" by simp
next
  from two_drones_one_step
  show "\<exists>dsl' doc' ws' d'. dsl_to_json dsl' = Inr (doc', ws') \<and> d' \<in> set (drones doc')
           \<and> d' \<notin> drone ` set (steps doc')"
    by (intro exI[of _ "''DRONE d1 ARM; DRONE d2 FLY''"] exI[of _ "''d2''"] exI)
       (rule conjI, assumption, simp)
qed

theorem dropped_instruction_drone_listed_witness:
  "dsl_to_json ''DRONE d1 ARM; DRONE d2 FLY'' =
     Inr (\<lparr>mission_id = ''mission_auto'', drones = [''d1'', ''d2''],
           steps = [\<lparr>state_id = ''s1'', drone = ''d1'', action = ''ARM'', params = [],
                     control = \<lparr>after_state = ''NONE'', after_drone = None, until = None\<rparr>,
                     nxt = Some ''s2''\<rparr>]\<rparr>,
          [UnknownAction ''FLY'' ''DRONE d2 FLY''])
   \<and> ''DRONE d2 FLY'' \<in> set (raw_cmds ''DRONE d1 ARM; DRONE d2 FLY'')
   \<and> split_ws ''DRONE d2 FLY'' = [''DRONE'', ''d2'', ''FLY'']
   \<and> ''FLY'' \<notin> set ACTION_KEYWORDS
   \<and> ''d2'' \<in> set (drones \<lparr>mission_id = ''mission_auto'', drones = [''d1'', ''d2''],
           steps = [\<lparr>state_id = ''s1'', drone = ''d1'', action = ''ARM'', params = [],
                     control = \<lparr>after_state = ''NONE'', after_drone = None, until = None\<rparr>,
                     nxt = Some ''s2''\<rparr>]\<rparr>)"
proof -
  have 2: "''DRONE d2 FLY'' \<in> set (raw_cmds ''DRONE d1 ARM; DRONE d2 FLY'')"
    by code_simp
  have 3: "split_ws ''DRONE d2 FLY'' = ''DRONE'' # ''d2'' # [''FLY'']"
    by code_simp
  have 4: "''FLY'' \<notin> set ACTION_KEYWORDS"
    by code_simp
  then have 5: "[''FLY''] = [] \<or> (hd [''FLY''] \<notin> set ACTION_KEYWORDS \<and> hd [''FLY''] \<noteq> ''STOP'')"
    by simp
  from dropped_instruction_drone_listed[OF two_drones_one_step 2 3 5] two_drones_one_step 2 3 4
  show ?thesis by simp
qed

section \<open>The composer: routing errors, sequence numbers, descriptor fields\<close>

lemmas compose_defs =
  compose_and_send_mavlink_def compose_step_def Let_def sum_bind_def dict_get_def
  has_key_def emit_def set_seq_def upload_def command_def connected_def set_control_def
  dict_update_def mission_item_int_dict_def command_long_dict_def py_float_def scaled_e7_def
  transmit_def send_command_long_def send_mission_item_int_def num_float_def num_int_def
  dval_of_def mavlink_attr_def eval_nat_numeral

lemma compose_step_unrouted:
  "drone_sys_map (drone stp) = None \<Longrightarrow>
   compose_step rt drone_sys_map connections send stp st = Inl (RoutingError (drone stp))"
  by (simp add: compose_step_def)

lemma compose_steps_reach_unrouted:
  assumes "drone_sys_map (drone stp) = None"
    and "compose_steps rt drone_sys_map connections send pre st = (Inr ds, tr)"
  shows "compose_steps rt drone_sys_map connections send (pre @ stp # post) st =
           (Inl (RoutingError (drone stp)), tr)"
  using assms(2)
proof (induction pre arbitrary: st)
  case Nil
  then show ?case using assms(1) by (simp add: compose_step_unrouted)
next
  case (Cons a pre)
  then obtain st' where a: "compose_step rt drone_sys_map connections send a st = Inr st'"
    and rest: "compose_steps rt drone_sys_map connections send pre st' = (Inr ds, tr)"
    by (auto split: sum.splits)
  from Cons.IH[OF rest] a show ?case by simp
qed

text \<open>
  C3, as the claim states it: at a step whose drone the routing map does not know, the
  caller still receives the descriptors produced for the earlier steps. It does not.
  The call ends with the routing error, and the descriptor of the first step, which the
  same call returns when the mission stops after that step, is not what the caller gets.
\<close>

theorem routing_error_no_partial_result:
  "compose_and_send_mavlink example_runtime arm_then_unknown_drone
     (map_of [(''d1'', (1, 1))]) (Some [''d1'']) True =
   (Inl (RoutingError ''d9''),
    [CommandLongSend ''d1'' 1 1 (VConst MAV_CMD_COMPONENT_ARM_DISARM) [1, 0, 0, 0, 0, 0, 0]])
   \<and> fst (compose_and_send_mavlink example_runtime arm_then_unknown_drone
            (map_of [(''d1'', (1, 1))]) (Some [''d1'']) True) \<noteq>
     fst (compose_and_send_mavlink example_runtime
            (arm_then_unknown_drone\<lparr>steps := take 1 (steps arm_then_unknown_drone)\<rparr>)
            (map_of [(''d1'', (1, 1))]) (Some [''d1'']) True)"
  by (simp add: compose_defs arm_then_unknown_drone_def)

text \<open>
  C3, amended. When the steps before \<open>stp\<close> compose without an exception, to the
  descriptors \<open>ds\<close> with the transport calls \<open>tr\<close>, and the drone of \<open>stp\<close> is absent
  from the routing map, then the call ends at \<open>stp\<close> with the routing error for that
  drone: no descriptor is returned, neither for \<open>stp\<close> and the later steps nor the
  descriptors \<open>ds\<close> of the earlier ones, and the transport calls made are exactly \<open>tr\<close>,
  those of the earlier steps.
\<close>

theorem routing_error_discards_descriptors:
  assumes "steps m = pre @ stp # post"
    and "drone_sys_map (drone stp) = None"
    and "compose_and_send_mavlink rt (m\<lparr>steps := pre\<rparr>) drone_sys_map connections send =
           (Inr ds, tr)"
  shows "compose_and_send_mavlink rt m drone_sys_map connections send =
           (Inl (RoutingError (drone stp)), tr)"
  using assms
    compose_steps_reach_unrouted[where drone_sys_map = drone_sys_map and stp = stp and rt = rt
      and connections = connections and send = send and pre = pre and ds = ds and tr = tr
      and post = post]
  by (simp add: compose_and_send_mavlink_def)

theorem routing_error_discards_descriptors_witness:
  "compose_and_send_mavlink example_runtime arm_then_unknown_drone
     (map_of [(''d1'', (1, 1))]) (Some [''d1'']) True =
   (Inl (RoutingError ''d9''),
    [CommandLongSend ''d1'' 1 1 (VConst MAV_CMD_COMPONENT_ARM_DISARM) [1, 0, 0, 0, 0, 0, 0]])"
proof -
  let ?s1 = "\<lparr>state_id = ''s1'', drone = ''d1'', action = ''ARM'', params = [],
                control = no_control, nxt = Some ''s2''\<rparr>"
  let ?s2 = "\<lparr>state_id = ''s2'', drone = ''d9'', action = ''ARM'', params = [],
                control = no_control, nxt = None\<rparr>"
  let ?map = "map_of [(''d1'', (1::int, 1::int))]"
  have 1: "steps arm_then_unknown_drone = [?s1] @ ?s2 # []"
    by (simp add: arm_then_unknown_drone_def)
  have 2: "?map (drone ?s2) = None" by simp
  have 3: "compose_and_send_mavlink example_runtime (arm_then_unknown_drone\<lparr>steps := [?s1]\<rparr>)
             ?map (Some [''d1'']) True =
           (Inr [[(''type'', VStr ''COMMAND_LONG''), (''sysid'', VInt 1), (''compid'', VInt 1),
                  (''command'', VConst MAV_CMD_COMPONENT_ARM_DISARM), (''confirmation'', VInt 0),
                  (''params'', VList [VFloat 1, VFloat 0, VFloat 0, VFloat 0, VFloat 0,
                                      VFloat 0, VFloat 0]),
                  (''drone'', VStr ''d1''), (''action'', VStr ''ARM''),
                  (''state_id'', VStr ''s1''),
                  (''control'', VControl no_control)]],
            [CommandLongSend ''d1'' 1 1 (VConst MAV_CMD_COMPONENT_ARM_DISARM)
               [1, 0, 0, 0, 0, 0, 0]])"
    by (simp add: compose_defs arm_then_unknown_drone_def)
  from routing_error_discards_descriptors[OF 1 2 3] show ?thesis by simp
qed

text \<open>
  C4. The claim: only mission-item descriptors consume a sequence number, so the
  numbers on a drone's mission items are 0, 1, 2, ... The \<^verbatim>\<open>GOTO\<close> branch increments
  the counter also when it produces an \<^verbatim>\<open>UNSUPPORTED\<close> descriptor (no \<^verbatim>\<open>lat\<close>/\<^verbatim>\<open>lon\<close>): the
  first mission item of drone \<open>d1\<close> below, the \<^verbatim>\<open>TAKEOFF\<close>, carries \<^verbatim>\<open>seq\<close> 1.
\<close>

theorem unsupported_goto_consumes_sequence_number:
  "fst (compose_and_send_mavlink rt
     \<lparr>mission_id = ''m'', drones = [''d1''],
      steps = [\<lparr>state_id = ''s1'', drone = ''d1'', action = ''GOTO'',
                params = [(''x'', PInt 1)], control = no_control, nxt = Some ''s2''\<rparr>,
               \<lparr>state_id = ''s2'', drone = ''d1'', action = ''TAKEOFF'',
                params = [(''alt'', PInt 10)], control = no_control, nxt = None\<rparr>]\<rparr>
     (map_of [(''d1'', (1, 1))]) None False) =
   Inr [[(''type'', VStr ''UNSUPPORTED''), (''drone'', VStr ''d1''),
         (''action'', VStr ''GOTO''), (''reason'', VStr ''Missing lat/lon''),
         (''params'', VParams [(''x'', PInt 1)]),
         (''state_id'', VStr ''s1''),
         (''human_params'', VParams [(''x'', PInt 1)]),
         (''control'', VControl no_control)],
        [(''type'', VStr ''MISSION_ITEM_INT''), (''sysid'', VInt 1),
         (''compid'', VInt 1), (''seq'', VInt 1),
         (''command'', VConst MAV_CMD_NAV_TAKEOFF),
         (''params'', VList [VInt 0, VInt 0, VInt 0, VInt 0, VInt 0, VInt 0, VFloat 10]),
         (''frame'', VConst MAV_FRAME_GLOBAL_RELATIVE_ALT),
         (''current'', VInt 0), (''autocontinue'', VInt 1),
         (''drone'', VStr ''d1''), (''action'', VStr ''TAKEOFF''),
         (''state_id'', VStr ''s2''),
         (''human_params'', VParams [(''alt'', PInt 10)]),
         (''control'', VControl no_control)]]"
  by (simp add: compose_defs)

text \<open>
  A \<^verbatim>\<open>HOLD\<close> step of a routed drone produces no descriptor: the pass raises
  AttributeError where it reads the command name, whatever the parameters of the step.
\<close>

lemma hold_raises:
  assumes "drone_sys_map (drone stp) = Some sc" and "action stp = ''HOLD''"
  shows "compose_step rt drone_sys_map connections send stp st = Inl AttributeError"
  using assms by (cases sc) (simp add: compose_step_def Let_def sum_bind_def mavlink_attr_def)

text \<open>
  C5. The claim: every descriptor carries the drone, the \<^verbatim>\<open>state_id\<close> and the control
  clause of its step, also for \<^verbatim>\<open>HOLD\<close>, \<^verbatim>\<open>RETURN\<close>, \<^verbatim>\<open>CIRCLE\<close>, \<^verbatim>\<open>FOLLOW\<close> and \<^verbatim>\<open>WAIT\<close>.
  The control clause is there on every descriptor, but the branches for \<^verbatim>\<open>RETURN\<close> and
  \<^verbatim>\<open>CIRCLE\<close> store neither the drone nor the \<^verbatim>\<open>state_id\<close>, and \<^verbatim>\<open>FOLLOW\<close> without a
  target stores no \<^verbatim>\<open>state_id\<close> (a \<^verbatim>\<open>HOLD\<close> step yields no descriptor at all, see
  \<open>hold_raises\<close>). For each descriptor of the mission below: its type and what it
  holds under the keys \<^verbatim>\<open>drone\<close>, \<^verbatim>\<open>state_id\<close> and \<^verbatim>\<open>control\<close>.
\<close>

theorem descriptors_without_drone_or_state_id:
  "map_sum id (map (\<lambda>md. (map_of md ''type'', map_of md ''drone'', map_of md ''state_id'',
                            map_of md ''control'')))
     (fst (compose_and_send_mavlink rt
        \<lparr>mission_id = ''m'', drones = [''d1''],
         steps = [\<lparr>state_id = ''s1'', drone = ''d1'', action = ''RETURN'', params = [],
                   control = no_control, nxt = Some ''s2''\<rparr>,
                  \<lparr>state_id = ''s2'', drone = ''d1'', action = ''CIRCLE'', params = [],
                   control = no_control, nxt = Some ''s3''\<rparr>,
                  \<lparr>state_id = ''s3'', drone = ''d1'', action = ''FOLLOW'', params = [],
                   control = no_control, nxt = Some ''s4''\<rparr>,
                  \<lparr>state_id = ''s4'', drone = ''d1'', action = ''WAIT'', params = [],
                   control = no_control, nxt = None\<rparr>]\<rparr>
        (map_of [(''d1'', (1, 1))]) None False)) =
   Inr [(Some (VStr ''COMMAND_LONG''), None, None, Some (VControl no_control)),
        (Some (VStr ''MISSION_ITEM_INT''), None, None, Some (VControl no_control)),
        (Some (VStr ''UNSUPPORTED''), Some (VStr ''d1''), None, Some (VControl no_control)),
        (Some (VStr ''WAIT''), Some (VStr ''d1''), Some (VStr ''s4''),
         Some (VControl no_control))]"
  by (simp add: compose_defs)

section \<open>The number pattern and the coercion of parameter values\<close>

lemma fullmatch_Nothing [simp]: "fullmatch Nothing s = False"
  by (induction s) auto

lemma fullmatch_Empty [simp]: "fullmatch Empty s \<longleftrightarrow> s = []"
  by (cases s) auto

lemma fullmatch_Chr [simp]: "fullmatch (Chr a) s \<longleftrightarrow> s = [a]"
  by (cases s) auto

lemma fullmatch_Digit [simp]: "fullmatch Digit s \<longleftrightarrow> (\<exists>c. s = [c] \<and> isdigit c)"
  by (cases s) auto

lemma fullmatch_Alt [simp]: "fullmatch (Alt r1 r2) s \<longleftrightarrow> fullmatch r1 s \<or> fullmatch r2 s"
  by (induction s arbitrary: r1 r2) auto

lemma fullmatch_Seq:
  "fullmatch (Seq r1 r2) s \<longleftrightarrow> (\<exists>u v. s = u @ v \<and> fullmatch r1 u \<and> fullmatch r2 v)"
proof (induction s arbitrary: r1)
  case Nil
  then show ?case by simp
next
  case (Cons c cs)
  have split: "(\<exists>u v. c # cs = u @ v \<and> fullmatch r1 u \<and> fullmatch r2 v) \<longleftrightarrow>
        (accepts_empty r1 \<and> fullmatch r2 (c # cs)) \<or>
        (\<exists>u v. cs = u @ v \<and> fullmatch (residual c r1) u \<and> fullmatch r2 v)"
    (is "?L \<longleftrightarrow> ?A \<or> ?B")
  proof
    assume ?L
    then obtain u v where uv: "c # cs = u @ v" "fullmatch r1 u" "fullmatch r2 v" by blast
    show "?A \<or> ?B"
    proof (cases u)
      case Nil
      with uv show ?thesis by simp
    next
      case (Cons a u')
      with uv have "cs = u' @ v" "fullmatch (residual c r1) u'" by auto
      with uv(3) show ?thesis by blast
    qed
  next
    assume "?A \<or> ?B"
    then show ?L
    proof
      assume ?A
      then have "c # cs = [] @ (c # cs) \<and> fullmatch r1 [] \<and> fullmatch r2 (c # cs)" by simp
      then show ?L by blast
    next
      assume ?B
      then obtain u v where "cs = u @ v" "fullmatch (residual c r1) u" "fullmatch r2 v" by blast
      then have "c # cs = (c # u) @ v \<and> fullmatch r1 (c # u) \<and> fullmatch r2 v" by simp
      then show ?L by blast
    qed
  qed
  show ?case
    by (simp add: split Cons.IH) blast
qed

lemma fullmatch_Star_Digit: "fullmatch (Star Digit) s \<longleftrightarrow> list_all isdigit s"
  by (induction s) (auto simp: fullmatch_Seq)

lemma fullmatch_Plus_Digit: "fullmatch (Plus Digit) s \<longleftrightarrow> s \<noteq> [] \<and> list_all isdigit s"
  by (cases s) (auto simp: Plus_def fullmatch_Seq fullmatch_Star_Digit)

lemma fullmatch_Opt: "fullmatch (Opt r) s \<longleftrightarrow> s = [] \<or> fullmatch r s"
  by (simp add: Opt_def)

lemma fullmatch_fraction:
  "fullmatch (Opt (Seq (Chr (CHR ''.'')) (Plus Digit))) fr \<longleftrightarrow>
     fr = [] \<or> (\<exists>fp. fr = CHR ''.'' # fp \<and> digits fp)"
  by (auto simp: fullmatch_Opt fullmatch_Seq fullmatch_Plus_Digit digits_def)

lemma fullmatch_sign:
  "fullmatch (Opt (Chr (CHR ''-''))) sg \<longleftrightarrow> sg = [] \<or> sg = ''-''"
  by (simp add: fullmatch_Opt)

lemma fullmatch_number_re:
  "fullmatch number_re v \<longleftrightarrow>
     (\<exists>sg ip fr. v = sg @ ip @ fr \<and> (sg = [] \<or> sg = ''-'') \<and> digits ip \<and>
        (fr = [] \<or> (\<exists>fp. fr = CHR ''.'' # fp \<and> digits fp)))"
proof -
  have "fullmatch number_re v \<longleftrightarrow>
        (\<exists>sg w. v = sg @ w \<and> fullmatch (Opt (Chr (CHR ''-''))) sg \<and>
           (\<exists>ip fr. w = ip @ fr \<and> fullmatch (Plus Digit) ip \<and>
              fullmatch (Opt (Seq (Chr (CHR ''.'')) (Plus Digit))) fr))"
    unfolding number_re_def
    by (subst fullmatch_Seq, subst fullmatch_Seq) (rule refl)
  also have "\<dots> \<longleftrightarrow>
     (\<exists>sg ip fr. v = sg @ ip @ fr \<and> (sg = [] \<or> sg = ''-'') \<and> digits ip \<and>
        (fr = [] \<or> (\<exists>fp. fr = CHR ''.'' # fp \<and> digits fp)))"
    unfolding fullmatch_fraction fullmatch_sign fullmatch_Plus_Digit digits_def[symmetric]
    by blast
  finally show ?thesis .
qed

lemma isdigit_not_dot: "isdigit c \<Longrightarrow> c \<noteq> CHR ''.''"
  by (auto simp: isdigit_def less_eq_char_def)

lemma isdigit_not_minus: "isdigit c \<Longrightarrow> c \<noteq> CHR ''-''"
  by (auto simp: isdigit_def less_eq_char_def)

lemma digits_no_dot: "digits ds \<Longrightarrow> CHR ''.'' \<notin> set ds"
  by (auto simp: digits_def list_all_iff dest: isdigit_not_dot)

lemma digits_hd: "digits ds \<Longrightarrow> \<exists>c cs. ds = c # cs \<and> c \<noteq> CHR ''-''"
  by (cases ds) (auto simp: digits_def dest: isdigit_not_minus)

lemma coerce_digits:
  assumes "digits ds" and "length ds \<le> int_max_str_digits"
  shows "coerce ds = Inr (PInt (int (digits_val ds)))"
    and "coerce (''-'' @ ds) = Inr (PInt (- int (digits_val ds)))"
proof -
  from digits_hd[OF assms(1)] obtain c cs where ds: "ds = c # cs" "c \<noteq> CHR ''-''" by blast
  have m1: "fullmatch number_re ds"
    unfolding fullmatch_number_re using assms(1) by (intro exI[of _ "[]"] exI[of _ ds]) simp
  have m2: "fullmatch number_re (''-'' @ ds)"
    unfolding fullmatch_number_re using assms(1)
    by (intro exI[of _ "''-''"] exI[of _ ds] exI[of _ "[]"]) simp
  from m1 digits_no_dot[OF assms(1)] ds assms(2)
  show "coerce ds = Inr (PInt (int (digits_val ds)))"
    by (simp add: coerce_def int_of_str_def)
  from m2 digits_no_dot[OF assms(1)] assms(2)
  show "coerce (''-'' @ ds) = Inr (PInt (- int (digits_val ds)))"
    by (simp add: coerce_def int_of_str_def)
qed

text \<open>Beyond the limit of \<^verbatim>\<open>int\<close> the value is not stored: the conversion raises.\<close>

lemma coerce_too_many_digits:
  assumes "digits ds" and "length ds > int_max_str_digits"
  shows "coerce ds = Inl IntError" and "coerce (''-'' @ ds) = Inl IntError"
proof -
  from digits_hd[OF assms(1)] obtain c cs where ds: "ds = c # cs" "c \<noteq> CHR ''-''" by blast
  have m1: "fullmatch number_re ds"
    unfolding fullmatch_number_re using assms(1) by (intro exI[of _ "[]"] exI[of _ ds]) simp
  have m2: "fullmatch number_re (''-'' @ ds)"
    unfolding fullmatch_number_re using assms(1)
    by (intro exI[of _ "''-''"] exI[of _ ds] exI[of _ "[]"]) simp
  from m1 digits_no_dot[OF assms(1)] ds assms(2) show "coerce ds = Inl IntError"
    by (simp add: coerce_def int_of_str_def)
  from m2 digits_no_dot[OF assms(1)] assms(2) show "coerce (''-'' @ ds) = Inl IntError"
    by (simp add: coerce_def int_of_str_def)
qed

lemma unsigned_float_decimal:
  assumes "digits ds"
  shows "unsigned_float (ds @ ''.'' @ fs) = real (digits_val ds) + real (digits_val fs) / 10 ^ length fs"
proof -
  have 1: "takeWhile (\<lambda>c. c \<noteq> CHR ''.'') (ds @ CHR ''.'' # fs) = ds"
    using digits_no_dot[OF assms] by (induction ds) auto
  have 2: "dropWhile (\<lambda>c. c \<noteq> CHR ''.'') (ds @ CHR ''.'' # fs) = CHR ''.'' # fs"
    using digits_no_dot[OF assms] by (induction ds) auto
  show ?thesis by (simp add: unsigned_float_def 1 2)
qed

lemma coerce_decimal:
  assumes "digits ds" and "digits fs"
  shows "coerce (ds @ ''.'' @ fs) =
           Inr (PFloat (real (digits_val ds) + real (digits_val fs) / 10 ^ length fs))"
    and "coerce (''-'' @ ds @ ''.'' @ fs) =
           Inr (PFloat (- (real (digits_val ds) + real (digits_val fs) / 10 ^ length fs)))"
proof -
  from digits_hd[OF assms(1)] obtain c cs where ds: "ds = c # cs" "c \<noteq> CHR ''-''" by blast
  have m1: "fullmatch number_re (ds @ ''.'' @ fs)"
    unfolding fullmatch_number_re using assms
    by (intro exI[of _ "[]"] exI[of _ ds] exI[of _ "''.'' @ fs"]) simp
  have m2: "fullmatch number_re (''-'' @ ds @ ''.'' @ fs)"
    unfolding fullmatch_number_re using assms
    by (intro exI[of _ "''-''"] exI[of _ ds] exI[of _ "''.'' @ fs"]) simp
  have u: "unsigned_float (c # cs @ CHR ''.'' # fs) =
             real (digits_val ds) + real (digits_val fs) / 10 ^ length fs"
    using unsigned_float_decimal[OF assms(1), of fs] ds by simp
  from m1 ds u
  show "coerce (ds @ ''.'' @ fs) =
          Inr (PFloat (real (digits_val ds) + real (digits_val fs) / 10 ^ length fs))"
    by (simp add: coerce_def float_of_str_def)
  from m2 ds u
  show "coerce (''-'' @ ds @ ''.'' @ fs) =
          Inr (PFloat (- (real (digits_val ds) + real (digits_val fs) / 10 ^ length fs)))"
    by (simp add: coerce_def float_of_str_def)
qed

lemma coerce_text:
  assumes "\<not> number_text v"
  shows "coerce v = Inr (PStr v)"
proof -
  from assms have "\<not> fullmatch number_re v"
    by (simp add: fullmatch_number_re number_text_def)
  then show ?thesis by (simp add: coerce_def)
qed

lemma split_on_absent: "sep \<notin> set s \<Longrightarrow> split_on sep s = [s]"
  by (induction s) auto

lemma split_on_first: "sep \<notin> set k \<Longrightarrow> split_on sep (k @ sep # v) = k # split_on sep v"
  by (induction k) auto

lemma split_on_key_value:
  "CHR ''='' \<notin> set k \<Longrightarrow> CHR ''='' \<notin> set v \<Longrightarrow> split_on (CHR ''='') (k @ ''='' @ v) = [k, v]"
  by (simp add: split_on_first split_on_absent)

lemma parse_param_loop_key_value:
  assumes "idx < length tokens" and "tokens ! idx = k @ ''='' @ v"
    and "CHR ''='' \<notin> set k" and "CHR ''='' \<notin> set v"
  shows "parse_param_loop tokens idx ps =
           (case coerce v of
              Inl e \<Rightarrow> Inl e
            | Inr x \<Rightarrow> parse_param_loop tokens (idx + 1) (AList.update k x ps))"
proof -
  have "CHR ''='' \<in> set (k @ ''='' @ v)" by simp
  moreover have "CHR ''='' \<notin> set ''AFTER''" "CHR ''='' \<notin> set ''UNTIL''" by simp_all
  ultimately have a: "k @ ''='' @ v \<noteq> ''AFTER''" "k @ ''='' @ v \<noteq> ''UNTIL''"
    by metis+
  show ?thesis
    using assms a split_on_key_value[OF assms(3,4)]
    by (subst parse_param_loop.simps) (simp add: Let_def)
qed

lemma parse_param_loop_stores:
  assumes "idx < length tokens" and "tokens ! idx = k @ ''='' @ v"
    and "CHR ''='' \<notin> set k" and "CHR ''='' \<notin> set v"
    and "coerce v = Inr x"
  shows "parse_param_loop tokens idx ps =
           parse_param_loop tokens (idx + 1) (AList.update k x ps)"
  using parse_param_loop_key_value[OF assms(1-4), of ps] assms(5) by simp

text \<open>
  C8, as the claim states it: a value that is a sign followed by digits becomes an
  integer. The pattern of the parser knows the minus sign only, and the value of the
  token \<^verbatim>\<open>alt=+5\<close> is stored as the text \<^verbatim>\<open>+5\<close>, not as the integer 5.
\<close>

theorem plus_sign_is_text:
  "parse_param_list [''alt=+5''] 0 = Inr ([(''alt'', PStr ''+5'')], 1)
   \<and> parse_param_list [''alt=+5''] 0 \<noteq> Inr ([(''alt'', PInt 5)], 1)"
  by code_simp

text \<open>
  C8, amended. A token \<open>k=v\<close> with one \<^verbatim>\<open>=\<close> makes the parameter loop store a value
  under \<open>k\<close> and go on with the next token. The value is an integer when \<open>v\<close> is an
  optional minus sign followed by digits, at most 4300 of them, the number these digits
  denote; a float when \<open>v\<close> is an optional minus sign, digits, a point and digits, the
  decimal number they denote; and the text \<open>v\<close> itself when \<open>v\<close> is no number text,
  as it is with a plus sign.
\<close>

theorem parameter_value_coercion:
  assumes "idx < length tokens" and "tokens ! idx = k @ ''='' @ v"
    and "CHR ''='' \<notin> set k" and "CHR ''='' \<notin> set v"
  shows "(\<forall>ds. digits ds \<and> length ds \<le> 4300 \<longrightarrow>
            (v = ds \<longrightarrow>
               parse_param_loop tokens idx ps =
                 parse_param_loop tokens (idx + 1)
                   (AList.update k (PInt (int (digits_val ds))) ps)) \<and>
            (v = ''-'' @ ds \<longrightarrow>
               parse_param_loop tokens idx ps =
                 parse_param_loop tokens (idx + 1)
                   (AList.update k (PInt (- int (digits_val ds))) ps)))
       \<and> (\<forall>ds fs. digits ds \<and> digits fs \<longrightarrow>
            (v = ds @ ''.'' @ fs \<longrightarrow>
               parse_param_loop tokens idx ps =
                 parse_param_loop tokens (idx + 1)
                   (AList.update k
                      (PFloat (real (digits_val ds) + real (digits_val fs) / 10 ^ length fs))
                      ps)) \<and>
            (v = ''-'' @ ds @ ''.'' @ fs \<longrightarrow>
               parse_param_loop tokens idx ps =
                 parse_param_loop tokens (idx + 1)
                   (AList.update k
                      (PFloat (- (real (digits_val ds) + real (digits_val fs) / 10 ^ length fs)))
                      ps)))
       \<and> (\<not> number_text v \<longrightarrow>
            parse_param_loop tokens idx ps =
              parse_param_loop tokens (idx + 1) (AList.update k (PStr v) ps))"
proof (intro conjI allI impI)
  fix ds
  assume d: "digits ds \<and> length ds \<le> 4300"
  then have l: "length ds \<le> int_max_str_digits" by (simp add: int_max_str_digits_def)
  {
    assume "v = ds"
    with coerce_digits(1)[OF conjunct1[OF d] l]
    show "parse_param_loop tokens idx ps =
            parse_param_loop tokens (idx + 1) (AList.update k (PInt (int (digits_val ds))) ps)"
      by (intro parse_param_loop_stores[OF assms]) simp
  }
  {
    assume "v = ''-'' @ ds"
    with coerce_digits(2)[OF conjunct1[OF d] l]
    show "parse_param_loop tokens idx ps =
            parse_param_loop tokens (idx + 1)
              (AList.update k (PInt (- int (digits_val ds))) ps)"
      by (intro parse_param_loop_stores[OF assms]) simp
  }
next
  fix ds fs
  assume d: "digits ds \<and> digits fs"
  {
    assume "v = ds @ ''.'' @ fs"
    with coerce_decimal(1)[OF conjunct1[OF d] conjunct2[OF d]]
    show "parse_param_loop tokens idx ps =
            parse_param_loop tokens (idx + 1)
              (AList.update k
                 (PFloat (real (digits_val ds) + real (digits_val fs) / 10 ^ length fs)) ps)"
      by (intro parse_param_loop_stores[OF assms]) simp
  }
  {
    assume "v = ''-'' @ ds @ ''.'' @ fs"
    with coerce_decimal(2)[OF conjunct1[OF d] conjunct2[OF d]]
    show "parse_param_loop tokens idx ps =
            parse_param_loop tokens (idx + 1)
              (AList.update k
                 (PFloat (- (real (digits_val ds) + real (digits_val fs) / 10 ^ length fs)))
                 ps)"
      by (intro parse_param_loop_stores[OF assms]) simp
  }
next
  assume "\<not> number_text v"
  from parse_param_loop_stores[OF assms coerce_text[OF this]]
  show "parse_param_loop tokens idx ps =
          parse_param_loop tokens (idx + 1) (AList.update k (PStr v) ps)" .
qed

lemma number_text_iff: "number_text v \<longleftrightarrow> fullmatch number_re v"
  by (simp add: fullmatch_number_re number_text_def)

theorem parameter_value_coercion_witness:
  "parse_param_list [''alt=10''] 0 = Inr ([(''alt'', PInt 10)], 1)
   \<and> parse_param_list [''alt=10.5''] 0 = Inr ([(''alt'', PFloat 10.5)], 1)
   \<and> parse_param_list [''dir=north''] 0 = Inr ([(''dir'', PStr ''north'')], 1)"
proof -
  have d: "digits ''10''" "digits ''5''"
    by (simp_all add: digits_def isdigit_def less_eq_char_def)
  have n: "\<not> number_text ''north''"
    unfolding number_text_iff by code_simp
  have v: "digits_val ''10'' = 10" "digits_val ''5'' = 5"
    by (simp_all add: digits_val_def digit_val_def)
  have e: "CHR ''='' \<notin> set ''alt''" "CHR ''='' \<notin> set ''dir''" "CHR ''='' \<notin> set ''10''"
    "CHR ''='' \<notin> set ''10.5''" "CHR ''='' \<notin> set ''north''"
    by simp_all
  have stop: "\<And>t ps. parse_param_loop [t] (0 + 1) ps = Inr (ps, 1)"
    by (subst parse_param_loop.simps) simp
  have 1: "parse_param_list [''alt=10''] 0 = Inr ([(''alt'', PInt 10)], 1)"
  proof -
    note t = parameter_value_coercion[of 0 "[''alt=10'']" "''alt''" "''10''" "[]",
               OF _ _ e(1) e(3), THEN conjunct1, rule_format, of "''10''", THEN conjunct1,
               rule_format]
    have "parse_param_loop [''alt=10''] 0 [] =
            parse_param_loop [''alt=10''] (0 + 1) (AList.update ''alt'' (PInt (int (digits_val ''10''))) [])"
      by (rule t) (simp_all add: d)
    with v stop show ?thesis by (simp add: parse_param_list_def)
  qed
  have 2: "parse_param_list [''alt=10.5''] 0 = Inr ([(''alt'', PFloat 10.5)], 1)"
  proof -
    note t = parameter_value_coercion[of 0 "[''alt=10.5'']" "''alt''" "''10.5''" "[]",
               OF _ _ e(1) e(4), THEN conjunct2, THEN conjunct1, rule_format,
               of "''10''" "''5''", THEN conjunct1, rule_format]
    have "parse_param_loop [''alt=10.5''] 0 [] =
            parse_param_loop [''alt=10.5''] (0 + 1)
              (AList.update ''alt''
                 (PFloat (real (digits_val ''10'') + real (digits_val ''5'') / 10 ^ length ''5''))
                 [])"
      by (rule t) (simp_all add: d)
    with v stop show ?thesis by (simp add: parse_param_list_def)
  qed
  have 3: "parse_param_list [''dir=north''] 0 = Inr ([(''dir'', PStr ''north'')], 1)"
  proof -
    note t = parameter_value_coercion[of 0 "[''dir=north'']" "''dir''" "''north''" "[]",
               OF _ _ e(2) e(5), THEN conjunct2, THEN conjunct2, rule_format]
    have "parse_param_loop [''dir=north''] 0 [] =
            parse_param_loop [''dir=north''] (0 + 1) (AList.update ''dir'' (PStr ''north'') [])"
      by (rule t) (simp_all add: n)
    with stop show ?thesis by (simp add: parse_param_list_def)
  qed
  from 1 2 3 show ?thesis by simp
qed

section \<open>The validator: predicted positions, the four checks, the document\<close>

lemma fst_validate_step:
  "fst (validate_step rt stp index p h) =
     (case predict rt (action stp) (params stp) p of
        Inl e \<Rightarrow> Inl e
      | Inr p' \<Rightarrow> Inr (step_issues index stp p', p'))"
  by (auto simp: validate_step_def step_issues_def Let_def has_key_def MIN_ALTITUDE_def
        MAX_ALTITUDE_def MAX_DISTANCE_def split: sum.splits prod.splits)

lemma mission_json_validate_step [simp]:
  "mission_json (snd (validate_step rt stp index p h)) = mission_json h"
  by (auto simp: validate_step_def Let_def log_append_def split: sum.splits prod.splits)

lemma validate_step_returns:
  assumes "validate_step rt stp index p h = (Inr (issues, p'), h')"
  shows "predict rt (action stp) (params stp) p = Inr p'" and "issues = step_issues index stp p'"
  using assms fst_validate_step[of rt stp index p h]
  by (auto split: sum.splits)

lemma validate_steps_accumulate:
  "validate_steps rt ss i p acc h = (Inr (issues, p'), h') \<Longrightarrow>
   \<exists>later. mission_issues rt ss i p = Inr later \<and> issues = acc @ later"
proof (induction ss arbitrary: i p acc h)
  case Nil
  then show ?case by simp
next
  case (Cons stp rest)
  then obtain si q h1 where 1: "validate_step rt stp (i + 1) p h = (Inr (si, q), h1)"
    and 2: "validate_steps rt rest (i + 1) q (acc @ si) h1 = (Inr (issues, p'), h')"
    by (auto split: prod.splits sum.splits)
  from Cons.IH[OF 2] obtain later where l: "mission_issues rt rest (i + 1) q = Inr later"
    "issues = (acc @ si) @ later" by blast
  with validate_step_returns[OF 1] show ?case by simp
qed

lemma mission_json_validate_steps [simp]:
  "mission_json (snd (validate_steps rt ss i p acc h)) = mission_json h"
proof (induction ss arbitrary: i p acc h)
  case Nil
  then show ?case by simp
next
  case (Cons stp rest)
  show ?case
  proof (cases "validate_step rt stp (i + 1) p h")
    case (Pair r h1)
    then have h1: "mission_json h1 = mission_json h"
      using mission_json_validate_step[of rt stp "i + 1" p h] by simp
    show ?thesis
    proof (cases r)
      case (Inl e)
      with Pair h1 show ?thesis by simp
    next
      case (Inr b)
      with Pair h1 Cons.IH show ?thesis by (cases b) simp
    qed
  qed
qed

lemma run_validation_unfold:
  "run_validation rt now m =
     (case validate_steps rt (steps m) 0 (0, 0, 0) []
             \<lparr>mission_json = m,
              log_buffer = [LogRule, LogTitle now, LogMissionId (mission_id m), LogDash]\<rparr> of
        (Inl e, h) \<Rightarrow> (Inl e, h)
      | (Inr (all_issues, final_state), h) \<Rightarrow>
          (Inr (all_issues,
                log_buffer h @ [LogDash] @
                  (if all_issues \<noteq> [] then [LogFailed, LogTotalErrors (length all_issues)]
                   else [LogPassed, LogAllSatisfied]) @ [LogRule]),
           h\<lparr>log_buffer := log_buffer h @ [LogDash] @
                  (if all_issues \<noteq> [] then [LogFailed, LogTotalErrors (length all_issues)]
                   else [LogPassed, LogAllSatisfied]) @ [LogRule]\<rparr>))"
  by (simp add: run_validation_def Let_def log_append_def split: sum.splits prod.splits)

lemma run_validation_returns:
  assumes "run_validation rt now m = (Inr (issues, audit), h)"
  shows "mission_issues rt (steps m) 0 (0, 0, 0) = Inr issues"
    and "\<exists>pre. audit = pre @ [LogDash] @
            (if issues \<noteq> [] then [LogFailed, LogTotalErrors (length issues)]
             else [LogPassed, LogAllSatisfied]) @ [LogRule]"
    and "h = \<lparr>mission_json = m, log_buffer = audit\<rparr>"
proof -
  let ?h1 = "\<lparr>mission_json = m,
              log_buffer = [LogRule, LogTitle now, LogMissionId (mission_id m), LogDash]\<rparr>"
  obtain r hv where v: "validate_steps rt (steps m) 0 (0, 0, 0) [] ?h1 = (r, hv)"
    by (cases "validate_steps rt (steps m) 0 (0, 0, 0) [] ?h1")
  from assms v obtain q where r: "r = Inr (issues, q)"
    and a: "audit = log_buffer hv @ [LogDash] @
            (if issues \<noteq> [] then [LogFailed, LogTotalErrors (length issues)]
             else [LogPassed, LogAllSatisfied]) @ [LogRule]"
    and h: "h = hv\<lparr>log_buffer := audit\<rparr>"
    unfolding run_validation_unfold by (auto split: sum.splits prod.splits)
  from validate_steps_accumulate[OF v[unfolded r]]
  show "mission_issues rt (steps m) 0 (0, 0, 0) = Inr issues" by simp
  from a show "\<exists>pre. audit = pre @ [LogDash] @
            (if issues \<noteq> [] then [LogFailed, LogTotalErrors (length issues)]
             else [LogPassed, LogAllSatisfied]) @ [LogRule]" by blast
  have "mission_json hv = m"
    using mission_json_validate_steps[of rt "steps m" 0 "(0, 0, 0)" "[]" ?h1] v by simp
  with h show "h = \<lparr>mission_json = m, log_buffer = audit\<rparr>" by simp
qed

lemma mission_json_run_validation:
  "mission_json (snd (run_validation rt now m)) = m"
proof -
  let ?h1 = "\<lparr>mission_json = m,
              log_buffer = [LogRule, LogTitle now, LogMissionId (mission_id m), LogDash]\<rparr>"
  obtain r hv where v: "validate_steps rt (steps m) 0 (0, 0, 0) [] ?h1 = (r, hv)"
    by (cases "validate_steps rt (steps m) 0 (0, 0, 0) [] ?h1")
  have hv: "mission_json hv = m"
    using mission_json_validate_steps[of rt "steps m" 0 "(0, 0, 0)" "[]" ?h1] v by simp
  with v show ?thesis
    unfolding run_validation_unfold by (auto split: sum.splits prod.splits)
qed

text \<open>
  C9. The Mission Document in the store after \<^verbatim>\<open>run_validation\<close> is the document it was
  given, whether the call returns or raises; and when it returns the issues and the
  audit log, the store holds the unchanged document and that log, nothing else.
\<close>

theorem validation_leaves_document_unchanged:
  "mission_json (snd (run_validation rt now m)) = m
   \<and> (\<forall>issues audit. fst (run_validation rt now m) = Inr (issues, audit) \<longrightarrow>
         snd (run_validation rt now m) = \<lparr>mission_json = m, log_buffer = audit\<rparr>)"
proof (intro conjI allI impI)
  show "mission_json (snd (run_validation rt now m)) = m"
    by (rule mission_json_run_validation)
next
  fix issues audit
  assume "fst (run_validation rt now m) = Inr (issues, audit)"
  then have "run_validation rt now m = (Inr (issues, audit), snd (run_validation rt now m))"
    by (metis prod.collapse)
  from run_validation_returns(3)[OF this]
  show "snd (run_validation rt now m) = \<lparr>mission_json = m, log_buffer = audit\<rparr>" .
qed

text \<open>
  C7. When \<^verbatim>\<open>validate_step\<close> returns, its issues are what the four checks report on the
  predicted position \<open>(x', y', z')\<close>, each check on its own and in this order: a
  \<^verbatim>\<open>TAKEOFF\<close> with neither \<^verbatim>\<open>altitude\<close> nor \<^verbatim>\<open>alt\<close>; \<open>z' < 0\<close>; \<open>z' > 120\<close>; and
  \<open>sqrt (x'\<^sup>2 + y'\<^sup>2) > 500\<close>. When \<^verbatim>\<open>run_validation\<close> returns, its issue list is the
  issues of all steps one after the other, and the report concludes PASSED exactly
  when that list is empty, FAILED with the number of issues exactly when it is not.
\<close>

theorem all_checks_recorded:
  "(\<forall>issues x' y' z' h'.
      validate_step rt stp index p h = (Inr (issues, (x', y', z')), h') \<longrightarrow>
      issues =
        (if action stp = ''TAKEOFF'' \<and> map_of (params stp) ''altitude'' = None
              \<and> map_of (params stp) ''alt'' = None
         then [MissingAltitude index] else [])
        @ (if z' < 0 then [BelowGround index z'] else [])
        @ (if z' > 120 then [AboveCeiling index z'] else [])
        @ (if sqrt (x'\<^sup>2 + y'\<^sup>2) > 500 then [OutsideArea index (sqrt (x'\<^sup>2 + y'\<^sup>2))]
           else []))
   \<and> (\<forall>all_issues audit hh.
        run_validation rt now m = (Inr (all_issues, audit), hh) \<longrightarrow>
        mission_issues rt (steps m) 0 (0, 0, 0) = Inr all_issues
        \<and> (all_issues = [] \<longleftrightarrow> (\<exists>pre. audit = pre @ [LogDash, LogPassed, LogAllSatisfied, LogRule]))
        \<and> (all_issues \<noteq> [] \<longleftrightarrow>
             (\<exists>pre. audit = pre @ [LogDash, LogFailed, LogTotalErrors (length all_issues), LogRule])))"
proof (intro conjI allI impI)
  fix issues x' y' z' h'
  assume "validate_step rt stp index p h = (Inr (issues, (x', y', z')), h')"
  from validate_step_returns(2)[OF this]
  show "issues =
        (if action stp = ''TAKEOFF'' \<and> map_of (params stp) ''altitude'' = None
              \<and> map_of (params stp) ''alt'' = None
         then [MissingAltitude index] else [])
        @ (if z' < 0 then [BelowGround index z'] else [])
        @ (if z' > 120 then [AboveCeiling index z'] else [])
        @ (if sqrt (x'\<^sup>2 + y'\<^sup>2) > 500 then [OutsideArea index (sqrt (x'\<^sup>2 + y'\<^sup>2))]
           else [])"
    by (simp add: step_issues_def)
next
  fix all_issues audit hh
  assume r: "run_validation rt now m = (Inr (all_issues, audit), hh)"
  from run_validation_returns(1)[OF r]
  show "mission_issues rt (steps m) 0 (0, 0, 0) = Inr all_issues" .
  from run_validation_returns(2)[OF r] obtain pre where
    pre: "audit = pre @ [LogDash] @
            (if all_issues \<noteq> [] then [LogFailed, LogTotalErrors (length all_issues)]
             else [LogPassed, LogAllSatisfied]) @ [LogRule]" by blast
  show "all_issues = [] \<longleftrightarrow> (\<exists>pre. audit = pre @ [LogDash, LogPassed, LogAllSatisfied, LogRule])"
    using pre by (cases "all_issues = []") auto
  show "all_issues \<noteq> [] \<longleftrightarrow>
         (\<exists>pre. audit = pre @ [LogDash, LogFailed, LogTotalErrors (length all_issues), LogRule])"
    using pre by (cases "all_issues = []") auto
qed

lemma predict_TAKEOFF:
  assumes "predict rt ''TAKEOFF'' ps (x, y, z) = Inr p'"
  shows "\<exists>alt. p' = (x, y, alt) \<and>
           (case map_of ps ''altitude'' of
              Some v \<Rightarrow> py_float rt v = Inr alt
            | None \<Rightarrow> (case map_of ps ''alt'' of
                         Some v \<Rightarrow> py_float rt v = Inr alt
                       | None \<Rightarrow> alt = 10))"
  using assms
  by (auto simp: predict_def dict_get_def py_float_def split: sum.splits option.splits)

lemma predict_GOTO:
  assumes "predict rt ''GOTO'' ps (x, y, z) = Inr p'"
  shows "\<exists>gx gy gz. p' = (gx, gy, gz) \<and>
           (case map_of ps ''x'' of Some v \<Rightarrow> py_float rt v = Inr gx | None \<Rightarrow> gx = x) \<and>
           (case map_of ps ''y'' of Some v \<Rightarrow> py_float rt v = Inr gy | None \<Rightarrow> gy = y) \<and>
           (case map_of ps ''z'' of Some v \<Rightarrow> py_float rt v = Inr gz | None \<Rightarrow> gz = z)"
  using assms
  by (auto simp: predict_def split: sum.splits option.splits)

lemma contains_keywords:
  "contains ''NORTH'' ''NORTH''"
  "\<not> contains ''NORTH'' ''SOUTH''" "contains ''SOUTH'' ''SOUTH''"
  "\<not> contains ''NORTH'' ''EAST''" "\<not> contains ''SOUTH'' ''EAST''" "contains ''EAST'' ''EAST''"
  "\<not> contains ''NORTH'' ''WEST''" "\<not> contains ''SOUTH'' ''WEST''" "\<not> contains ''EAST'' ''WEST''"
  "contains ''WEST'' ''WEST''"
  "\<not> contains ''NORTH'' ''UP''" "\<not> contains ''SOUTH'' ''UP''" "\<not> contains ''EAST'' ''UP''"
  "\<not> contains ''WEST'' ''UP''" "contains ''UP'' ''UP''"
  "\<not> contains ''NORTH'' ''DOWN''" "\<not> contains ''SOUTH'' ''DOWN''" "\<not> contains ''EAST'' ''DOWN''"
  "\<not> contains ''WEST'' ''DOWN''" "\<not> contains ''UP'' ''DOWN''" "contains ''DOWN'' ''DOWN''"
  by (simp_all add: startswith_def)

lemma predict_MOVE:
  assumes "predict rt ''MOVE'' ps (x, y, z) = Inr p'"
  shows "\<exists>d. (case map_of ps ''distance'' of Some v \<Rightarrow> py_float rt v = Inr d | None \<Rightarrow> d = 0) \<and>
           (let dir = upper (py_str rt (dict_get ps ''direction'' (PStr []))) in
              (dir = ''NORTH'' \<longrightarrow> p' = (x, y + d, z)) \<and>
              (dir = ''SOUTH'' \<longrightarrow> p' = (x, y - d, z)) \<and>
              (dir = ''EAST'' \<longrightarrow> p' = (x + d, y, z)) \<and>
              (dir = ''WEST'' \<longrightarrow> p' = (x - d, y, z)) \<and>
              (dir = ''UP'' \<longrightarrow> p' = (x, y, z + d)) \<and>
              (dir = ''DOWN'' \<longrightarrow> p' = (x, y, z - d)) \<and>
              (\<not> contains ''NORTH'' dir \<and> \<not> contains ''SOUTH'' dir \<and> \<not> contains ''EAST'' dir \<and>
               \<not> contains ''WEST'' dir \<and> \<not> contains ''UP'' dir \<and> \<not> contains ''DOWN'' dir
                 \<longrightarrow> p' = (x, y, z)))"
proof -
  from assms obtain d where d: "py_float rt (dict_get ps ''distance'' (PInt 0)) = Inr d"
    by (auto simp: predict_def split: sum.splits)
  have 1: "(case map_of ps ''distance'' of Some v \<Rightarrow> py_float rt v = Inr d | None \<Rightarrow> d = 0)"
    using d by (auto simp: dict_get_def py_float_def split: option.splits)
  let ?dir = "upper (py_str rt (dict_get ps ''direction'' (PStr [])))"
  have p: "p' = (if contains ''NORTH'' ?dir then (x, y + d, z)
              else if contains ''SOUTH'' ?dir then (x, y - d, z)
              else if contains ''EAST'' ?dir then (x + d, y, z)
              else if contains ''WEST'' ?dir then (x - d, y, z)
              else if contains ''UP'' ?dir then (x, y, z + d)
              else if contains ''DOWN'' ?dir then (x, y, z - d)
              else (x, y, z))"
    using assms d by (simp add: predict_def Let_def split: if_splits)
  have "(?dir = ''NORTH'' \<longrightarrow> p' = (x, y + d, z)) \<and>
        (?dir = ''SOUTH'' \<longrightarrow> p' = (x, y - d, z)) \<and>
        (?dir = ''EAST'' \<longrightarrow> p' = (x + d, y, z)) \<and>
        (?dir = ''WEST'' \<longrightarrow> p' = (x - d, y, z)) \<and>
        (?dir = ''UP'' \<longrightarrow> p' = (x, y, z + d)) \<and>
        (?dir = ''DOWN'' \<longrightarrow> p' = (x, y, z - d)) \<and>
        (\<not> contains ''NORTH'' ?dir \<and> \<not> contains ''SOUTH'' ?dir \<and> \<not> contains ''EAST'' ?dir \<and>
         \<not> contains ''WEST'' ?dir \<and> \<not> contains ''UP'' ?dir \<and> \<not> contains ''DOWN'' ?dir
           \<longrightarrow> p' = (x, y, z))"
    using p contains_keywords by (simp del: contains.simps)
  with 1 show ?thesis unfolding Let_def by blast
qed

lemma predict_LAND: "predict rt ''LAND'' ps (x, y, z) = Inr (x, y, 0)"
  by (simp add: predict_def)

lemma predict_other:
  "act \<notin> {''TAKEOFF'', ''GOTO'', ''MOVE'', ''LAND''} \<Longrightarrow> predict rt act ps (x, y, z) = Inr (x, y, z)"
  by (simp add: predict_def)

text \<open>
  C6. When \<^verbatim>\<open>validate_step\<close> returns for a step at the position \<open>(x, y, z)\<close>, the
  predicted position \<open>p'\<close> is: for \<^verbatim>\<open>TAKEOFF\<close>, \<open>(x, y, alt)\<close> with \<open>alt\<close> the number of
  the parameter \<^verbatim>\<open>altitude\<close>, else of \<^verbatim>\<open>alt\<close>, else 10; for \<^verbatim>\<open>GOTO\<close>, the numbers of
  those of \<^verbatim>\<open>x\<close>, \<^verbatim>\<open>y\<close>, \<^verbatim>\<open>z\<close> that are parameters and the old coordinates for the
  others; for \<^verbatim>\<open>MOVE\<close>, with \<open>d\<close> the number of \<^verbatim>\<open>distance\<close> (0 if absent) and the
  direction text in upper case, \<open>y + d\<close> for NORTH, \<open>y - d\<close> for SOUTH, \<open>x + d\<close> for
  EAST, \<open>x - d\<close> for WEST, \<open>z + d\<close> for UP, \<open>z - d\<close> for DOWN, the other two
  coordinates unchanged (and the position unchanged when the direction holds none of
  the six keywords); for \<^verbatim>\<open>LAND\<close>, \<open>(x, y, 0)\<close>; for every other action, \<open>(x, y, z)\<close>.
  With floats as real numbers the call returns whenever \<^verbatim>\<open>float\<close> converts the
  parameters it reads (\<open>predict_returns\<close>, \<open>validate_step_returns_iff\<close>); the
  interpreter's \<^verbatim>\<open>float\<close> also raises on an integer beyond the range of a float.
\<close>

theorem position_transition:
  assumes "validate_step rt stp index (x, y, z) h = (Inr (issues, p'), h')"
  shows "(action stp = ''TAKEOFF'' \<longrightarrow>
            (\<exists>alt. p' = (x, y, alt) \<and>
               (case map_of (params stp) ''altitude'' of
                  Some v \<Rightarrow> py_float rt v = Inr alt
                | None \<Rightarrow> (case map_of (params stp) ''alt'' of
                             Some v \<Rightarrow> py_float rt v = Inr alt
                           | None \<Rightarrow> alt = 10))))
       \<and> (action stp = ''GOTO'' \<longrightarrow>
            (\<exists>gx gy gz. p' = (gx, gy, gz) \<and>
               (case map_of (params stp) ''x'' of Some v \<Rightarrow> py_float rt v = Inr gx | None \<Rightarrow> gx = x) \<and>
               (case map_of (params stp) ''y'' of Some v \<Rightarrow> py_float rt v = Inr gy | None \<Rightarrow> gy = y) \<and>
               (case map_of (params stp) ''z'' of Some v \<Rightarrow> py_float rt v = Inr gz | None \<Rightarrow> gz = z)))
       \<and> (action stp = ''MOVE'' \<longrightarrow>
            (\<exists>d. (case map_of (params stp) ''distance'' of
                     Some v \<Rightarrow> py_float rt v = Inr d
                   | None \<Rightarrow> d = 0) \<and>
               (let dir = upper (py_str rt (dict_get (params stp) ''direction'' (PStr []))) in
                  (dir = ''NORTH'' \<longrightarrow> p' = (x, y + d, z)) \<and>
                  (dir = ''SOUTH'' \<longrightarrow> p' = (x, y - d, z)) \<and>
                  (dir = ''EAST'' \<longrightarrow> p' = (x + d, y, z)) \<and>
                  (dir = ''WEST'' \<longrightarrow> p' = (x - d, y, z)) \<and>
                  (dir = ''UP'' \<longrightarrow> p' = (x, y, z + d)) \<and>
                  (dir = ''DOWN'' \<longrightarrow> p' = (x, y, z - d)) \<and>
                  (\<not> contains ''NORTH'' dir \<and> \<not> contains ''SOUTH'' dir \<and>
                   \<not> contains ''EAST'' dir \<and> \<not> contains ''WEST'' dir \<and>
                   \<not> contains ''UP'' dir \<and> \<not> contains ''DOWN'' dir
                     \<longrightarrow> p' = (x, y, z)))))
       \<and> (action stp = ''LAND'' \<longrightarrow> p' = (x, y, 0))
       \<and> (action stp \<notin> {''TAKEOFF'', ''GOTO'', ''MOVE'', ''LAND''} \<longrightarrow> p' = (x, y, z))"
proof -
  note p = validate_step_returns(1)[OF assms]
  show ?thesis
  proof (intro conjI impI)
    assume "action stp = ''TAKEOFF''"
    with p show "\<exists>alt. p' = (x, y, alt) \<and>
               (case map_of (params stp) ''altitude'' of
                  Some v \<Rightarrow> py_float rt v = Inr alt
                | None \<Rightarrow> (case map_of (params stp) ''alt'' of
                             Some v \<Rightarrow> py_float rt v = Inr alt
                           | None \<Rightarrow> alt = 10))"
      by (simp add: predict_TAKEOFF)
  next
    assume "action stp = ''GOTO''"
    with p show "\<exists>gx gy gz. p' = (gx, gy, gz) \<and>
               (case map_of (params stp) ''x'' of Some v \<Rightarrow> py_float rt v = Inr gx | None \<Rightarrow> gx = x) \<and>
               (case map_of (params stp) ''y'' of Some v \<Rightarrow> py_float rt v = Inr gy | None \<Rightarrow> gy = y) \<and>
               (case map_of (params stp) ''z'' of Some v \<Rightarrow> py_float rt v = Inr gz | None \<Rightarrow> gz = z)"
      by (simp add: predict_GOTO)
  next
    assume "action stp = ''MOVE''"
    with p have "predict rt ''MOVE'' (params stp) (x, y, z) = Inr p'" by simp
    from predict_MOVE[OF this]
    show "\<exists>d. (case map_of (params stp) ''distance'' of
                     Some v \<Rightarrow> py_float rt v = Inr d
                   | None \<Rightarrow> d = 0) \<and>
               (let dir = upper (py_str rt (dict_get (params stp) ''direction'' (PStr []))) in
                  (dir = ''NORTH'' \<longrightarrow> p' = (x, y + d, z)) \<and>
                  (dir = ''SOUTH'' \<longrightarrow> p' = (x, y - d, z)) \<and>
                  (dir = ''EAST'' \<longrightarrow> p' = (x + d, y, z)) \<and>
                  (dir = ''WEST'' \<longrightarrow> p' = (x - d, y, z)) \<and>
                  (dir = ''UP'' \<longrightarrow> p' = (x, y, z + d)) \<and>
                  (dir = ''DOWN'' \<longrightarrow> p' = (x, y, z - d)) \<and>
                  (\<not> contains ''NORTH'' dir \<and> \<not> contains ''SOUTH'' dir \<and>
                   \<not> contains ''EAST'' dir \<and> \<not> contains ''WEST'' dir \<and>
                   \<not> contains ''UP'' dir \<and> \<not> contains ''DOWN'' dir
                     \<longrightarrow> p' = (x, y, z)))" .
  next
    assume "action stp = ''LAND''"
    with p show "p' = (x, y, 0)" by (simp add: predict_LAND)
  next
    assume "action stp \<notin> {''TAKEOFF'', ''GOTO'', ''MOVE'', ''LAND''}"
    from predict_other[OF this] p show "p' = (x, y, z)" by simp
  qed
qed

lemma predict_returns:
  assumes "\<And>k v. k \<in> {''altitude'', ''alt'', ''x'', ''y'', ''z'', ''distance''} \<Longrightarrow>
             map_of ps k = Some v \<Longrightarrow> \<exists>r. py_float rt v = Inr r"
  shows "\<exists>p'. predict rt act ps p = Inr p'"
proof -
  obtain x y z where p: "p = (x, y, z)" by (cases p)
  have d: "\<exists>r. py_float rt (dict_get ps k (PInt n)) = Inr r"
    if "k \<in> {''altitude'', ''alt'', ''x'', ''y'', ''z'', ''distance''}" for k n
    using assms[OF that] by (cases "map_of ps k") (auto simp: dict_get_def py_float_def)
  have t: "\<exists>r. py_float rt (dict_get ps ''altitude'' (dict_get ps ''alt'' (PInt 10))) = Inr r"
    using assms[of "''altitude''"] d[of "''alt''" 10]
    by (cases "map_of ps ''altitude''") (auto simp: dict_get_def)
  have g: "\<exists>r. (case map_of ps k of None \<Rightarrow> Inr c | Some v \<Rightarrow> py_float rt v) = Inr r"
    if "k \<in> {''altitude'', ''alt'', ''x'', ''y'', ''z'', ''distance''}" for k c
    using assms[OF that] by (cases "map_of ps k") auto
  from g[of "''x''" x] obtain gx where
    gx: "(case map_of ps ''x'' of None \<Rightarrow> Inr x | Some v \<Rightarrow> py_float rt v) = Inr gx" by auto
  from g[of "''y''" y] obtain gy where
    gy: "(case map_of ps ''y'' of None \<Rightarrow> Inr y | Some v \<Rightarrow> py_float rt v) = Inr gy" by auto
  from g[of "''z''" z] obtain gz where
    gz: "(case map_of ps ''z'' of None \<Rightarrow> Inr z | Some v \<Rightarrow> py_float rt v) = Inr gz" by auto
  from t obtain alt where
    alt: "py_float rt (dict_get ps ''altitude'' (dict_get ps ''alt'' (PInt 10))) = Inr alt" by auto
  from d[of "''distance''" 0] obtain dd where
    dd: "py_float rt (dict_get ps ''distance'' (PInt 0)) = Inr dd" by auto
  show ?thesis
    unfolding p predict_def by (simp add: gx gy gz alt dd Let_def)
qed

lemma validate_step_returns_iff:
  "(\<exists>issues p' h'. validate_step rt stp index p h = (Inr (issues, p'), h')) \<longleftrightarrow>
   (\<exists>p'. predict rt (action stp) (params stp) p = Inr p')"
proof
  assume "\<exists>issues p' h'. validate_step rt stp index p h = (Inr (issues, p'), h')"
  then show "\<exists>p'. predict rt (action stp) (params stp) p = Inr p'"
    by (auto dest: validate_step_returns(1))
next
  assume "\<exists>p'. predict rt (action stp) (params stp) p = Inr p'"
  then obtain p' where "predict rt (action stp) (params stp) p = Inr p'" by blast
  then have "fst (validate_step rt stp index p h) = Inr (step_issues index stp p', p')"
    by (simp add: fst_validate_step)
  then have "validate_step rt stp index p h =
      (Inr (step_issues index stp p', p'), snd (validate_step rt stp index p h))"
    by (metis prod.collapse)
  then show "\<exists>issues p' h'. validate_step rt stp index p h = (Inr (issues, p'), h')" by blast
qed

lemma sqrt_origin_distance:
  "sqrt (1000000::real) = 1000" "sqrt (10000::real) = 100"
  by (rule real_sqrt_unique; simp)+

lemma geofence_iff: "sqrt (x\<^sup>2 + y\<^sup>2) > 500 \<longleftrightarrow> x\<^sup>2 + y\<^sup>2 > (250000::real)"
proof -
  have "sqrt (250000::real) = 500" by (rule real_sqrt_unique) simp_all
  then have "sqrt (x\<^sup>2 + y\<^sup>2) > 500 \<longleftrightarrow> sqrt (x\<^sup>2 + y\<^sup>2) > sqrt 250000" by simp
  also have "\<dots> \<longleftrightarrow> x\<^sup>2 + y\<^sup>2 > 250000" by (rule real_sqrt_less_iff)
  finally show ?thesis .
qed

theorem position_transition_witness:
  "map_sum id snd (fst (validate_step example_runtime
      \<lparr>state_id = ''s1'', drone = ''d1'', action = ''TAKEOFF'', params = [(''altitude'', PInt 15)],
        control = no_control, nxt = None\<rparr> 1 (1, 2, 3) empty_store)) = Inr (1, 2, 15)
   \<and> map_sum id snd (fst (validate_step example_runtime
      \<lparr>state_id = ''s2'', drone = ''d1'', action = ''MOVE'',
        params = [(''direction'', PStr ''north''), (''distance'', PInt 5)],
        control = no_control, nxt = None\<rparr> 2 (1, 2, 15) empty_store)) = Inr (1, 7, 15)"
proof -
  let ?t = "\<lparr>state_id = ''s1'', drone = ''d1'', action = ''TAKEOFF'',
              params = [(''altitude'', PInt 15)], control = no_control, nxt = None\<rparr>"
  let ?m = "\<lparr>state_id = ''s2'', drone = ''d1'', action = ''MOVE'',
              params = [(''direction'', PStr ''north''), (''distance'', PInt 5)],
              control = no_control, nxt = None\<rparr>"
  have "\<exists>p'. predict example_runtime (action ?t) (params ?t) (1, 2, 3) = Inr p'"
    by (rule predict_returns) (auto simp: py_float_def)
  with validate_step_returns_iff[of example_runtime ?t 1 "(1, 2, 3)" empty_store]
  obtain i1 p1 h1 where
    1: "validate_step example_runtime ?t 1 (1, 2, 3) empty_store = (Inr (i1, p1), h1)"
    by blast
  have "\<exists>p'. predict example_runtime (action ?m) (params ?m) (1, 2, 15) = Inr p'"
    by (rule predict_returns) (auto simp: py_float_def)
  with validate_step_returns_iff[of example_runtime ?m 2 "(1, 2, 15)" empty_store]
  obtain i2 p2 h2 where
    2: "validate_step example_runtime ?m 2 (1, 2, 15) empty_store = (Inr (i2, p2), h2)"
    by blast
  have u: "upper ''north'' = ''NORTH''"
    by code_simp
  from position_transition[OF 1] have "p1 = (1, 2, 15)"
    by (simp add: py_float_def)
  moreover from position_transition[OF 2] have "p2 = (1, 7, 15)"
    by (simp add: py_float_def py_str_def dict_get_def u Let_def del: contains.simps)
  ultimately show ?thesis using 1 2 by simp
qed

theorem all_checks_recorded_witness:
  "map_sum id fst (fst (validate_step example_runtime
      \<lparr>state_id = ''s1'', drone = ''d1'', action = ''GOTO'',
        params = [(''x'', PInt 1000), (''y'', PInt 0)],
        control = no_control, nxt = None\<rparr> 1 (0, 0, 0) empty_store)) = Inr [OutsideArea 1 1000]
   \<and> map_sum id fst (fst (validate_step example_runtime
      \<lparr>state_id = ''s1'', drone = ''d1'', action = ''GOTO'',
        params = [(''x'', PInt 100), (''y'', PInt 0)],
        control = no_control, nxt = None\<rparr> 1 (0, 0, 0) empty_store)) = Inr []
   \<and> fst (run_validation example_runtime ''now''
      \<lparr>mission_id = ''m'', drones = [''d1''],
       steps = [\<lparr>state_id = ''s1'', drone = ''d1'', action = ''GOTO'',
                 params = [(''x'', PInt 1000), (''y'', PInt 0)],
                 control = no_control, nxt = None\<rparr>]\<rparr>) =
     Inr ([OutsideArea 1 1000],
          [LogRule, LogTitle ''now'', LogMissionId ''m'', LogDash,
           LogAction 1 ''GOTO'' [(''x'', PInt 1000), (''y'', PInt 0)], LogState 1000 0 0,
           LogMinOk 0, LogMaxOk 0, LogGeofenceFail (OutsideArea 1 1000),
           LogDash, LogFailed, LogTotalErrors 1, LogRule])
   \<and> mission_issues example_runtime
        [\<lparr>state_id = ''s1'', drone = ''d1'', action = ''GOTO'',
           params = [(''x'', PInt 1000), (''y'', PInt 0)],
           control = no_control, nxt = None\<rparr>] 0 (0, 0, 0) = Inr [OutsideArea 1 1000]"
proof -
  let ?m = "\<lparr>mission_id = ''m'', drones = [''d1''],
       steps = [\<lparr>state_id = ''s1'', drone = ''d1'', action = ''GOTO'',
                 params = [(''x'', PInt 1000), (''y'', PInt 0)],
                 control = no_control, nxt = None\<rparr>]\<rparr>"
  let ?l = "[LogRule, LogTitle ''now'', LogMissionId ''m'', LogDash,
           LogAction 1 ''GOTO'' [(''x'', PInt 1000), (''y'', PInt 0)], LogState 1000 0 0,
           LogMinOk 0, LogMaxOk 0, LogGeofenceFail (OutsideArea 1 1000),
           LogDash, LogFailed, LogTotalErrors 1, LogRule]"
  have fr: "fst (run_validation example_runtime ''now'' ?m) = Inr ([OutsideArea 1 1000], ?l)"
    by (simp add: run_validation_unfold validate_step_def predict_def Let_def log_append_def
          MIN_ALTITUDE_def MAX_ALTITUDE_def MAX_DISTANCE_def has_key_def py_float_def
          sqrt_origin_distance)
  then have r: "run_validation example_runtime ''now'' ?m =
      (Inr ([OutsideArea 1 1000], ?l), snd (run_validation example_runtime ''now'' ?m))"
    by (metis prod.collapse)
  have rm: "mission_issues example_runtime (steps ?m) 0 (0, 0, 0) = Inr [OutsideArea 1 1000]"
    using all_checks_recorded[of example_runtime _ _ _ _ "''now''" ?m,
            THEN conjunct2, rule_format, OF r]
    by blast
  let ?a = "\<lparr>state_id = ''s1'', drone = ''d1'', action = ''GOTO'',
        params = [(''x'', PInt 1000), (''y'', PInt 0)], control = no_control, nxt = None\<rparr>"
  let ?b = "\<lparr>state_id = ''s1'', drone = ''d1'', action = ''GOTO'',
        params = [(''x'', PInt 100), (''y'', PInt 0)], control = no_control, nxt = None\<rparr>"
  have pa: "predict example_runtime (action ?a) (params ?a) (0, 0, 0) = Inr (1000, 0, 0)"
    by (simp add: predict_def py_float_def)
  have pb: "predict example_runtime (action ?b) (params ?b) (0, 0, 0) = Inr (100, 0, 0)"
    by (simp add: predict_def py_float_def)
  from pa have fa: "fst (validate_step example_runtime ?a 1 (0, 0, 0) empty_store) =
      Inr (step_issues 1 ?a (1000, 0, 0), (1000, 0, 0))"
    by (simp add: fst_validate_step)
  then have a: "validate_step example_runtime ?a 1 (0, 0, 0) empty_store =
      (Inr (step_issues 1 ?a (1000, 0, 0), (1000, 0, 0)),
       snd (validate_step example_runtime ?a 1 (0, 0, 0) empty_store))"
    by (metis prod.collapse)
  from pb have fb: "fst (validate_step example_runtime ?b 1 (0, 0, 0) empty_store) =
      Inr (step_issues 1 ?b (100, 0, 0), (100, 0, 0))"
    by (simp add: fst_validate_step)
  then have b: "validate_step example_runtime ?b 1 (0, 0, 0) empty_store =
      (Inr (step_issues 1 ?b (100, 0, 0), (100, 0, 0)),
       snd (validate_step example_runtime ?b 1 (0, 0, 0) empty_store))"
    by (metis prod.collapse)
  have ia: "step_issues 1 ?a (1000, 0, 0) = [OutsideArea 1 1000]"
    using all_checks_recorded[of example_runtime ?a 1 "(0, 0, 0)" empty_store,
            THEN conjunct1, rule_format, OF a]
    by (simp add: sqrt_origin_distance)
  have ib: "step_issues 1 ?b (100, 0, 0) = []"
    using all_checks_recorded[of example_runtime ?b 1 "(0, 0, 0)" empty_store,
            THEN conjunct1, rule_format, OF b]
    by (simp add: sqrt_origin_distance)
  have ra: "map_sum id fst (fst (validate_step example_runtime ?a 1 (0, 0, 0) empty_store)) =
              Inr [OutsideArea 1 1000]"
    unfolding fa ia by simp
  have rb: "map_sum id fst (fst (validate_step example_runtime ?b 1 (0, 0, 0) empty_store)) =
              Inr []"
    unfolding fb ib by simp
  from rm have rm': "mission_issues example_runtime
        [\<lparr>state_id = ''s1'', drone = ''d1'', action = ''GOTO'',
           params = [(''x'', PInt 1000), (''y'', PInt 0)],
           control = no_control, nxt = None\<rparr>] 0 (0, 0, 0) = Inr [OutsideArea 1 1000]"
    by simp
  from ra rb fr rm' show ?thesis by (intro conjI)
qed

theorem validation_leaves_document_unchanged_witness:
  "run_validation example_runtime ''now''
     \<lparr>mission_id = ''m'', drones = [''d1''],
      steps = [\<lparr>state_id = ''s1'', drone = ''d1'', action = ''LAND'', params = [],
                control = no_control, nxt = None\<rparr>]\<rparr> =
   (Inr ([], [LogRule, LogTitle ''now'', LogMissionId ''m'', LogDash,
              LogAction 1 ''LAND'' [], LogState 0 0 0, LogMinOk 0, LogMaxOk 0, LogGeofenceOk 0,
              LogDash, LogPassed, LogAllSatisfied, LogRule]),
    \<lparr>mission_json =
        \<lparr>mission_id = ''m'', drones = [''d1''],
         steps = [\<lparr>state_id = ''s1'', drone = ''d1'', action = ''LAND'', params = [],
                   control = no_control, nxt = None\<rparr>]\<rparr>,
      log_buffer = [LogRule, LogTitle ''now'', LogMissionId ''m'', LogDash,
              LogAction 1 ''LAND'' [], LogState 0 0 0, LogMinOk 0, LogMaxOk 0, LogGeofenceOk 0,
              LogDash, LogPassed, LogAllSatisfied, LogRule]\<rparr>)"
proof -
  let ?m = "\<lparr>mission_id = ''m'', drones = [''d1''],
      steps = [\<lparr>state_id = ''s1'', drone = ''d1'', action = ''LAND'', params = [],
                control = no_control, nxt = None\<rparr>]\<rparr>"
  let ?l = "[LogRule, LogTitle ''now'', LogMissionId ''m'', LogDash,
              LogAction 1 ''LAND'' [], LogState 0 0 0, LogMinOk 0, LogMaxOk 0, LogGeofenceOk 0,
              LogDash, LogPassed, LogAllSatisfied, LogRule]"
  have f: "fst (run_validation example_runtime ''now'' ?m) = Inr ([], ?l)"
    by (simp add: run_validation_unfold validate_step_def predict_def Let_def log_append_def
          MIN_ALTITUDE_def MAX_ALTITUDE_def MAX_DISTANCE_def)
  with validation_leaves_document_unchanged[of example_runtime "''now''" ?m]
  have "snd (run_validation example_runtime ''now'' ?m) = \<lparr>mission_json = ?m, log_buffer = ?l\<rparr>"
    by blast
  with f show ?thesis by (metis prod.collapse)
qed

section \<open>Further facts about the parser and the composer\<close>

text \<open>
  The facts of this section hold for every input; the claims above that the code does
  not meet are shown there at one input each.
\<close>

lemma parse_cmd_step:
  assumes "parse_cmd n cmd st = Inr st'"
  shows "(st_steps st' = st_steps st \<and> state_counter st' = state_counter st) \<or>
         (\<exists>stp. st_steps st' = st_steps st @ [stp] \<and>
                state_id stp = ''s'' @ str_nat (state_counter st) \<and>
                nxt stp = (if state_counter st < n
                           then Some (''s'' @ str_nat (state_counter st + 1)) else None) \<and>
                state_counter st' = state_counter st + 1)"
  using assms
  by (auto simp: parse_cmd_def Let_def warn_def
           split: if_splits option.splits sum.splits prod.splits)

lemma parse_cmd_chained:
  assumes "parse_cmd n cmd st = Inr st'" and "chained n st"
  shows "chained n st'"
proof -
  from parse_cmd_step[OF assms(1)] show ?thesis
  proof
    assume "st_steps st' = st_steps st \<and> state_counter st' = state_counter st"
    with assms(2) show ?thesis by (simp add: chained_def)
  next
    assume "\<exists>stp. st_steps st' = st_steps st @ [stp] \<and>
                state_id stp = ''s'' @ str_nat (state_counter st) \<and>
                nxt stp = (if state_counter st < n
                           then Some (''s'' @ str_nat (state_counter st + 1)) else None) \<and>
                state_counter st' = state_counter st + 1"
    then obtain stp where s: "st_steps st' = st_steps st @ [stp]"
      "state_id stp = ''s'' @ str_nat (state_counter st)"
      "nxt stp = (if state_counter st < n
                  then Some (''s'' @ str_nat (state_counter st + 1)) else None)"
      "state_counter st' = state_counter st + 1" by blast
    from assms(2) have c: "state_counter st = length (st_steps st) + 1"
      by (simp add: chained_def)
    show ?thesis
      unfolding chained_def
    proof (intro conjI allI impI)
      show "state_counter st' = length (st_steps st') + 1" using s c by simp
    next
      fix k assume k: "k < length (st_steps st')"
      show "state_id (st_steps st' ! k) = ''s'' @ str_nat (k + 1)"
      proof (cases "k < length (st_steps st)")
        case True
        with assms(2) s show ?thesis by (simp add: chained_def nth_append)
      next
        case False
        with k s have "k = length (st_steps st)" by simp
        with s c show ?thesis by (simp add: nth_append)
      qed
      show "nxt (st_steps st' ! k) =
              (if k + 1 < n then Some (''s'' @ str_nat (k + 2)) else None)"
      proof (cases "k < length (st_steps st)")
        case True
        with assms(2) s show ?thesis by (simp add: chained_def nth_append)
      next
        case False
        with k s have "k = length (st_steps st)" by simp
        with s c show ?thesis by (simp add: nth_append)
      qed
    qed
  qed
qed

lemma parse_cmds_chained:
  "parse_cmds n cmds st = Inr st' \<Longrightarrow> chained n st \<Longrightarrow> chained n st'"
proof (induction cmds arbitrary: st)
  case Nil
  then show ?case by simp
next
  case (Cons c cs)
  then obtain st1 where 1: "parse_cmd n c st = Inr st1" and 2: "parse_cmds n cs st1 = Inr st'"
    by (auto split: sum.splits)
  from Cons.IH[OF 2 parse_cmd_chained[OF 1 Cons.prems(2)]] show ?case .
qed

lemma parse_cmds_length:
  "parse_cmds n cmds st = Inr st' \<Longrightarrow> length (st_steps st') \<le> length (st_steps st) + length cmds"
proof (induction cmds arbitrary: st)
  case Nil
  then show ?case by simp
next
  case (Cons c cs)
  then obtain st1 where 1: "parse_cmd n c st = Inr st1" and 2: "parse_cmds n cs st1 = Inr st'"
    by (auto split: sum.splits)
  from parse_cmd_step[OF 1] have "length (st_steps st1) \<le> length (st_steps st) + 1" by auto
  with Cons.IH[OF 2] show ?case by simp
qed

text \<open>
  What the parser does for every script it returns a document for: the state ids are
  \<open>s1, s2, ...\<close> in order, there are at most as many steps as raw instructions, and
  step number \<open>k + 1\<close> has a \<^verbatim>\<open>next\<close> exactly when \<open>k + 1\<close> is below the number of raw
  instructions. So the chain ends in absence when no instruction was dropped, and
  whenever one was dropped the last step points to a state that does not exist.
\<close>

lemma dsl_to_json_chain:
  assumes "dsl_to_json dsl = Inr (doc, ws)"
  shows "length (steps doc) \<le> length (raw_cmds dsl)"
    and "\<forall>k < length (steps doc).
           state_id (steps doc ! k) = ''s'' @ str_nat (k + 1) \<and>
           nxt (steps doc ! k) =
             (if k + 1 < length (raw_cmds dsl) then Some (''s'' @ str_nat (k + 2)) else None)"
proof -
  from assms obtain st
    where st: "parse_cmds (length (raw_cmds dsl)) (raw_cmds dsl) init_pstate = Inr st"
      and doc: "steps doc = st_steps st"
    by (auto simp: dsl_to_json_def Let_def split: sum.splits)
  have "chained (length (raw_cmds dsl)) init_pstate"
    by (simp add: chained_def init_pstate_def)
  from parse_cmds_chained[OF st this] doc
  show "\<forall>k < length (steps doc).
           state_id (steps doc ! k) = ''s'' @ str_nat (k + 1) \<and>
           nxt (steps doc ! k) =
             (if k + 1 < length (raw_cmds dsl) then Some (''s'' @ str_nat (k + 2)) else None)"
    by (simp add: chained_def)
  from parse_cmds_length[OF st] doc show "length (steps doc) \<le> length (raw_cmds dsl)"
    by (simp add: init_pstate_def)
qed

lemma last_step_next:
  assumes "dsl_to_json dsl = Inr (doc, ws)" and "steps doc \<noteq> []"
  shows "nxt (last (steps doc)) = None \<longleftrightarrow> length (steps doc) = length (raw_cmds dsl)"
proof -
  let ?k = "length (steps doc) - 1"
  from assms(2) have k: "?k < length (steps doc)" "?k + 1 = length (steps doc)" by simp_all
  from dsl_to_json_chain(2)[OF assms(1), rule_format, OF k(1)] k(2)
  have "nxt (steps doc ! ?k) =
          (if length (steps doc) < length (raw_cmds dsl)
           then Some (''s'' @ str_nat (?k + 2)) else None)" by simp
  moreover have "last (steps doc) = steps doc ! ?k" using assms(2) by (simp add: last_conv_nth)
  ultimately show ?thesis using dsl_to_json_chain(1)[OF assms(1)] by auto
qed

text \<open>
  The malformed shapes the parser does drop with a diagnostic, and the trailing control
  keyword it does not: \<^verbatim>\<open>parse_control\<close> raises whenever \<^verbatim>\<open>AFTER\<close> or \<^verbatim>\<open>UNTIL\<close> is the last
  token.
\<close>

lemma parse_cmd_short:
  "length (split_ws cmd) = 1 \<Longrightarrow> parse_cmd n cmd st = Inr (warn (ShortLine cmd) st)"
  by (simp add: parse_cmd_def Let_def)

lemma parse_cmd_not_drone:
  "length (split_ws cmd) \<ge> 2 \<Longrightarrow> split_ws cmd ! 0 \<noteq> ''DRONE''
   \<Longrightarrow> parse_cmd n cmd st = Inr (warn (NotDrone cmd) st)"
  by (simp add: parse_cmd_def Let_def)

lemma parse_control_trailing:
  assumes "idx + 1 = length tokens" and "tokens ! idx = ''AFTER'' \<or> tokens ! idx = ''UNTIL''"
  shows "parse_control tokens idx = Inl IndexError"
  using assms by (auto simp: parse_control_def Let_def)

text \<open>
  Every \<^verbatim>\<open>GOTO\<close> without both \<^verbatim>\<open>lat\<close> and \<^verbatim>\<open>lon\<close> that composes leaves an \<^verbatim>\<open>UNSUPPORTED\<close>
  descriptor and a counter one higher for its drone.
\<close>

lemma unsupported_goto_increments:
  assumes "drone_sys_map (drone stp) = Some (sysid, compid)"
    and "action stp = ''GOTO''"
    and "map_of (params stp) ''lat'' = None \<or> map_of (params stp) ''lon'' = None"
    and "compose_step rt drone_sys_map connections send stp st = Inr st'"
  shows "map_of (seq_counter_per_drone st') (drone stp) =
           Some (dict_get (seq_counter_per_drone st) (drone stp) 0 + 1)"
    and "map_of (last (generated st')) ''type'' = Some (VStr ''UNSUPPORTED'')"
  using assms
  by (auto simp: compose_step_def Let_def sum_bind_def has_key_def emit_def set_seq_def
        set_control_def dict_update_def update_conv)

end
